theory Spec2Isabelle
  imports Complex_Main
begin

section \<open>Python values read from JSON\<close>

text \<open>
  \<^verbatim>\<open>ed_poll.py\<close> handles three kinds of untyped data: the parsed state file, the parsed body
  of the Ed reply, and the thread dictionaries inside it. All of them are what
  \<^verbatim>\<open>json.load\<close> produces. A dictionary is an association list in insertion order with
  the first binding of a key being the live one. A float is a finite rational (every finite
  double is one), an infinity or a NaN: Python's \<^verbatim>\<open>json\<close> reads all three.
\<close>

datatype pyfloat = Finite rat | Infinite | NaN

datatype json =
    JNull
  | JBool bool
  | JInt int
  | JFloat pyfloat
  | JStr string
  | JList "json list"
  | JDict "(string \<times> json) list"

type_synonym dict = "(string \<times> json) list"

datatype py_error =
    MissingToken
  | RequestFailed
  | SlackWebhookFailed int
  | SlackUnreachableError
  | AttributeError
  | TypeError
  | ValueError
  | OverflowError
  | OSError

definition bind_err :: "'e + 'a \<Rightarrow> ('a \<Rightarrow> 'e + 'b) \<Rightarrow> 'e + 'b" where
  "bind_err m f = (case m of Inl e \<Rightarrow> Inl e | Inr x \<Rightarrow> f x)"

text \<open>Truth value of a Python object, as \<^verbatim>\<open>not x\<close> and \<^verbatim>\<open>x or y\<close> test it.\<close>

fun truthy :: "json \<Rightarrow> bool" where
  "truthy JNull = False"
| "truthy (JBool b) = b"
| "truthy (JInt n) = (n \<noteq> 0)"
| "truthy (JFloat f) = (f \<noteq> Finite 0)"
| "truthy (JStr s) = (s \<noteq> [])"
| "truthy (JList xs) = (xs \<noteq> [])"
| "truthy (JDict kvs) = (kvs \<noteq> [])"

definition py_or :: "json \<Rightarrow> json \<Rightarrow> json" where
  "py_or x y = (if truthy x then x else y)"

text \<open>\<^verbatim>\<open>d.get(k)\<close> on a dictionary: the value, or \<^verbatim>\<open>None\<close> for a missing key.\<close>

definition dict_get :: "dict \<Rightarrow> string \<Rightarrow> json" where
  "dict_get d k = (case map_of d k of None \<Rightarrow> JNull | Some v \<Rightarrow> v)"

text \<open>\<^verbatim>\<open>x.get(k)\<close> on any object: only a dictionary has the method.\<close>

fun py_get :: "json \<Rightarrow> string \<Rightarrow> py_error + json" where
  "py_get (JDict d) k = Inr (dict_get d k)"
| "py_get _ k = Inl AttributeError"

text \<open>\<^verbatim>\<open>d[k] = v\<close>: an existing key keeps its position, a new key goes last.\<close>

fun dict_set :: "dict \<Rightarrow> string \<Rightarrow> json \<Rightarrow> dict" where
  "dict_set [] k v = [(k, v)]"
| "dict_set ((k', v') # d) k v = (if k' = k then (k, v) # d else (k', v') # dict_set d k v)"

text \<open>\<^verbatim>\<open>x[k] = v\<close> with a string key on any object: a list wants an integer index, the
  other types support no item assignment.\<close>

fun py_setitem :: "json \<Rightarrow> string \<Rightarrow> json \<Rightarrow> py_error + json" where
  "py_setitem (JDict d) k v = Inr (JDict (dict_set d k v))"
| "py_setitem _ k v = Inl TypeError"

fun has_substring :: "string \<Rightarrow> string \<Rightarrow> bool" where
  "has_substring sub [] = (sub = [])"
| "has_substring sub (c # cs) = (take (length sub) (c # cs) = sub \<or> has_substring sub cs)"

text \<open>\<^verbatim>\<open>k in x\<close> with a string \<open>k\<close>: key membership for a dictionary, element membership
  for a list, substring test for a string, \<^verbatim>\<open>TypeError\<close> for what is not iterable.\<close>

fun py_contains :: "json \<Rightarrow> string \<Rightarrow> py_error + bool" where
  "py_contains (JDict d) k = Inr (k \<in> set (map fst d))"
| "py_contains (JList xs) k = Inr (JStr k \<in> set xs)"
| "py_contains (JStr s) k = Inr (has_substring k s)"
| "py_contains _ k = Inl TypeError"

text \<open>\<^verbatim>\<open>for d in x\<close>: the elements of a list, the keys of a dictionary, the characters of a
  string; \<^verbatim>\<open>TypeError\<close> for the rest.\<close>

fun py_iter :: "json \<Rightarrow> py_error + json list" where
  "py_iter (JList xs) = Inr xs"
| "py_iter (JDict d) = Inr (map (\<lambda>kv. JStr (fst kv)) d)"
| "py_iter (JStr s) = Inr (map (\<lambda>c. JStr [c]) s)"
| "py_iter _ = Inl TypeError"

text \<open>\<^verbatim>\<open>isinstance(x, int)\<close>: \<^verbatim>\<open>bool\<close> is a subclass of \<^verbatim>\<open>int\<close>.\<close>

fun is_int :: "json \<Rightarrow> bool" where
  "is_int (JInt n) = True"
| "is_int (JBool b) = True"
| "is_int _ = False"

fun is_list :: "json \<Rightarrow> bool" where
  "is_list (JList xs) = True"
| "is_list _ = False"

fun as_dict :: "json \<Rightarrow> dict option" where
  "as_dict (JDict d) = Some d"
| "as_dict _ = None"

text \<open>The number an \<^verbatim>\<open>int\<close> instance stands for in \<^verbatim>\<open>>\<close>, in the sort key and under
  \<^verbatim>\<open>int()\<close>. It is applied only to values that passed \<^verbatim>\<open>isinstance(_, int)\<close>.\<close>

fun int_val :: "json \<Rightarrow> int" where
  "int_val (JInt n) = n"
| "int_val (JBool b) = (if b then 1 else 0)"
| "int_val _ = 0"

text \<open>\<^verbatim>\<open>int(x)\<close>. A float is truncated towards zero; \<^verbatim>\<open>int\<close> of a string is the library's
  parser, taken as the parameter \<open>parse\<close>.\<close>

fun py_int :: "(string \<Rightarrow> int option) \<Rightarrow> json \<Rightarrow> py_error + int" where
  "py_int parse (JInt n) = Inr n"
| "py_int parse (JBool b) = Inr (if b then 1 else 0)"
| "py_int parse (JFloat (Finite q)) = Inr (if 0 \<le> q then \<lfloor>q\<rfloor> else \<lceil>q\<rceil>)"
| "py_int parse (JFloat Infinite) = Inl OverflowError"
| "py_int parse (JFloat NaN) = Inl ValueError"
| "py_int parse (JStr s) = (case parse s of None \<Rightarrow> Inl ValueError | Some n \<Rightarrow> Inr n)"
| "py_int parse _ = Inl TypeError"

text \<open>\<^verbatim>\<open>xs[:n]\<close>: a negative bound counts from the end.\<close>

definition slice_to :: "'a list \<Rightarrow> int \<Rightarrow> 'a list" where
  "slice_to xs n = (if 0 \<le> n then take (nat n) xs else take (nat (int (length xs) + n)) xs)"

section \<open>The process and what surrounds it\<close>

text \<open>
  The text of a Slack message is an f-string; it is represented by the values that fill its
  holes. \<open>Link region_prefix course_id discussion_id\<close> is the URL of
  \<^verbatim>\<open>build_discussion_url\<close>, \<open>NoLink\<close> the empty string.
\<close>

datatype link = Link string int int | NoLink

datatype message = TitleByAuthor json json link | TitleOnly json link

fun discussion_of :: "message \<Rightarrow> int option" where
  "discussion_of (TitleByAuthor t a (Link r c i)) = Some i"
| "discussion_of (TitleOnly t (Link r c i)) = Some i"
| "discussion_of _ = None"

text \<open>
  A file is missing; or it exists where \<^verbatim>\<open>os.stat\<close> is denied, so that
  \<^verbatim>\<open>os.path.exists\<close> answers \<^verbatim>\<open>False\<close> for it (\<open>Hidden\<close>); or it is seen but cannot be
  opened; or it holds text. Of the text only what \<^verbatim>\<open>json.load\<close> makes of it matters:
  \<open>None\<close> when it raises (empty and partial text among the causes), the value otherwise.
\<close>

datatype disk_file = Missing | Hidden | Unreadable | Contents "json option"

text \<open>Where \<^verbatim>\<open>save_state\<close> fails when it fails: at \<^verbatim>\<open>open\<close> of the temporary file, while
  \<^verbatim>\<open>json.dump\<close> writes it (partial text is left behind), or at \<^verbatim>\<open>os.replace\<close> (a failing
  \<^verbatim>\<open>close\<close> after the last byte leaves the same files: the complete temporary file).\<close>

datatype write_fault = OpenFails | DumpFails | ReplaceFails

datatype ed_reply = EdUnreachable | EdResponse int "json option"

datatype slack_reply = SlackUnreachable | SlackResponse int

record args =
  course_id :: int
  ed_api_host :: string
  region_prefix :: string
  interval :: int
  limit :: int
  max_posts_per_run :: int
  state_file :: string
  once :: bool
  dry_run :: bool

text \<open>What the process can change or leave behind.\<close>

record world =
  environ :: "string \<Rightarrow> string option"
  files :: "string \<Rightarrow> disk_file"
  stdout :: "message list"
  stderr :: "py_error list"
  slack_channel :: "(string \<times> message) list"

text \<open>
  What one cycle meets outside the program: the reply of Ed to its one GET, the reply of
  Slack to its \<open>k\<close>-th POST, whether its \<open>k\<close>-th \<^verbatim>\<open>print\<close> succeeds, whether
  \<^verbatim>\<open>save_state\<close> succeeds and at which step it fails when it does not, the clock, and the
  library's \<^verbatim>\<open>int()\<close> on text.
\<close>

record cycle_env =
  ed_reply :: ed_reply
  slack_reply :: "nat \<Rightarrow> slack_reply"
  print_ok :: "nat \<Rightarrow> bool"
  write_ok :: bool
  now_utc :: string
  int_of_text :: "string \<Rightarrow> int option"
  write_fault :: write_fault

section \<open>Low-level helpers\<close>

definition build_discussion_url :: "int \<Rightarrow> int \<Rightarrow> string \<Rightarrow> link" where
  "build_discussion_url cid did rp = Link rp cid did"

text \<open>\<^verbatim>\<open>format_slack_message\<close>. The two \<^verbatim>\<open>or\<close> chains evaluate left to right and stop at
  the first truthy operand, so a malformed \<^verbatim>\<open>author\<close> raises only when \<^verbatim>\<open>user\<close> gave no name.
  The unused \<^verbatim>\<open>created_at\<close> lookup cannot raise and is left out.\<close>

definition format_slack_message :: "dict \<Rightarrow> int \<Rightarrow> string \<Rightarrow> py_error + message" where
  "format_slack_message discussion cid rp =
     (let did = dict_get discussion ''id'';
          title = py_or (dict_get discussion ''title'')
                    (py_or (dict_get discussion ''subject'') (JStr ''(untitled)''))
      in bind_err (py_get (py_or (dict_get discussion ''user'') (JDict [])) ''name'') (\<lambda>n1.
         bind_err (if truthy n1 then Inr n1
                   else bind_err (py_get (py_or (dict_get discussion ''author'') (JDict [])) ''name'')
                          (\<lambda>n2. Inr (py_or n2 (JStr ''''))))
           (\<lambda>author.
              let url = (if is_int did then build_discussion_url cid (int_val did) rp else NoLink)
              in if truthy author then Inr (TitleByAuthor title author url)
                 else Inr (TitleOnly title url))))"

definition request_json :: "ed_reply \<Rightarrow> py_error + json" where
  "request_json r =
     (case r of
        EdUnreachable \<Rightarrow> Inl RequestFailed
      | EdResponse status body \<Rightarrow>
          if \<not> (200 \<le> status \<and> status \<le> 299) then Inl RequestFailed
          else (case body of None \<Rightarrow> Inl RequestFailed | Some v \<Rightarrow> Inr v))"

definition zero_state :: json where
  "zero_state = JDict [(''last_seen_id'', JInt 0), (''last_run_utc'', JNull)]"

definition warning_state :: json where
  "warning_state = JDict [(''last_seen_id'', JInt 0), (''last_run_utc'', JNull),
                          (''warning'', JStr ''state file unreadable; reset state'')]"

text \<open>\<^verbatim>\<open>os.path.exists\<close>.\<close>

definition path_exists :: "disk_file \<Rightarrow> bool" where
  "path_exists f = (f \<noteq> Missing \<and> f \<noteq> Hidden)"

text \<open>The \<^verbatim>\<open>try\<close> block of \<^verbatim>\<open>load_state\<close>: \<^verbatim>\<open>open\<close>, \<^verbatim>\<open>json.load\<close>, the membership test and the
  default.\<close>

definition load_state_try :: "disk_file \<Rightarrow> py_error + json" where
  "load_state_try f =
     (case f of
        Missing \<Rightarrow> Inl OSError
      | Hidden \<Rightarrow> Inl OSError
      | Unreadable \<Rightarrow> Inl OSError
      | Contents None \<Rightarrow> Inl ValueError
      | Contents (Some data) \<Rightarrow>
          bind_err (py_contains data ''last_seen_id'') (\<lambda>present.
            if \<not> present then py_setitem data ''last_seen_id'' (JInt 0) else Inr data))"

definition load_state :: "(string \<Rightarrow> disk_file) \<Rightarrow> string \<Rightarrow> py_error + json" where
  "load_state fs path =
     (if \<not> path_exists (fs path) then Inr zero_state
      else (case load_state_try (fs path) of
              Inl e \<Rightarrow> Inr warning_state
            | Inr data \<Rightarrow> Inr data))"

text \<open>\<^verbatim>\<open>save_state\<close>, step by step: \<^verbatim>\<open>open\<close> creates or empties the temporary file,
  \<^verbatim>\<open>json.dump\<close> fills it, \<^verbatim>\<open>os.replace\<close> moves it over the target, after which the
  temporary name is gone. A step that raises leaves the files of the steps before it.\<close>

definition save_state ::
  "cycle_env \<Rightarrow> (string \<Rightarrow> disk_file) \<Rightarrow> string \<Rightarrow> json
     \<Rightarrow> (py_error + unit) \<times> (string \<Rightarrow> disk_file)" where
  "save_state e fs path state =
     (let tmp = path @ ''.tmp'';
          fault = (if write_ok e then None else Some (write_fault e))
      in if fault = Some OpenFails then (Inl OSError, fs)
         else (let fs1 = fs(tmp := Contents None) in
               if fault = Some DumpFails then (Inl OSError, fs1)
               else (let fs2 = fs1(tmp := Contents (Some state)) in
                     if fault = Some ReplaceFails then (Inl OSError, fs2)
                     else (Inr (), fs2(path := fs2 tmp, tmp := Missing)))))"

text \<open>\<^verbatim>\<open>fetch_latest_threads\<close>. Host, token, course id and limit only build the request;
  \<open>ed_reply\<close> is what comes back for it. \<^verbatim>\<open>request_json\<close> turns a transport failure, a
  status outside 200..299 and a body that is not JSON into its \<^verbatim>\<open>RuntimeError\<close>. The result
  keeps the dictionaries among the elements, so it is a list of dictionaries.\<close>

definition fetch_latest_threads :: "cycle_env \<Rightarrow> py_error + dict list" where
  "fetch_latest_threads e =
     bind_err (request_json (ed_reply e)) (\<lambda>data.
     bind_err (py_get data ''threads'') (\<lambda>threads.
     bind_err (if \<not> is_list threads
               then bind_err (py_get data ''data'') (\<lambda>inner.
                    bind_err (py_get (py_or inner (JDict [])) ''threads'') (\<lambda>t.
                    Inr (py_or t (JList []))))
               else Inr threads) (\<lambda>threads.
     bind_err (py_iter threads) (\<lambda>ds. Inr (List.map_filter as_dict ds)))))"

definition post_to_slack ::
  "cycle_env \<Rightarrow> nat \<Rightarrow> string \<Rightarrow> message \<Rightarrow> world \<Rightarrow> (py_error + unit) \<times> world" where
  "post_to_slack e k webhook_url text w =
     (case slack_reply e k of
        SlackUnreachable \<Rightarrow> (Inl SlackUnreachableError, w)
      | SlackResponse status \<Rightarrow>
          if \<not> (200 \<le> status \<and> status \<le> 299) then (Inl (SlackWebhookFailed status), w)
          else (Inr (), w\<lparr>slack_channel := slack_channel w @ [(webhook_url, text)]\<rparr>))"

section \<open>Main polling logic\<close>

text \<open>\<^verbatim>\<open>not v\<close> for the result of \<^verbatim>\<open>os.getenv\<close>: unset, or set to the empty string.\<close>

definition not_set :: "string option \<Rightarrow> bool" where
  "not_set v = (case v of None \<Rightarrow> True | Some s \<Rightarrow> s = [])"

text \<open>Line 175: \<^verbatim>\<open>int(state.get("last_seen_id") or 0)\<close>.\<close>

definition read_cursor :: "(string \<Rightarrow> int option) \<Rightarrow> json \<Rightarrow> py_error + int" where
  "read_cursor parse state =
     bind_err (py_get state ''last_seen_id'') (\<lambda>v. py_int parse (py_or v (JInt 0)))"

text \<open>Lines 168 to 177 of \<^verbatim>\<open>poll_once\<close>: the token, the webhook URL, the state, the cursor
  and the fetched threads.\<close>

definition poll_inputs ::
  "args \<Rightarrow> cycle_env \<Rightarrow> world \<Rightarrow> py_error + (string option \<times> json \<times> int \<times> dict list)" where
  "poll_inputs a e w =
     (let token = environ w ''ED_API_TOKEN'' in
      if not_set token then Inl MissingToken
      else (let webhook_url = environ w ''SLACK_WEBHOOK_URL'' in
            bind_err (load_state (files w) (state_file a)) (\<lambda>state.
            bind_err (read_cursor (int_of_text e) state) (\<lambda>last_seen_id.
            bind_err (fetch_latest_threads e) (\<lambda>threads.
            Inr (webhook_url, state, last_seen_id, threads))))))"

text \<open>Lines 179 to 187: keep the integer ids above the cursor, sort oldest first, cap.\<close>

definition post_id :: "dict \<Rightarrow> int" where
  "post_id d = int_val (dict_get d ''id'')"

definition select_posts :: "dict list \<Rightarrow> int \<Rightarrow> int \<Rightarrow> dict list" where
  "select_posts threads last_seen_id cap =
     (let candidates = filter (\<lambda>d. is_int (dict_get d ''id'')) threads;
          new_posts = filter (\<lambda>d. post_id d > last_seen_id) candidates;
          new_posts = sort_key post_id new_posts
      in slice_to new_posts cap)"

text \<open>Lines 195 to 206: the loop over the selected posts, with its two counters. An exception
  leaves the loop with the world as it is at that point. Every earlier iteration printed or
  posted once, so \<open>posted\<close> is also the index of the current \<^verbatim>\<open>print\<close> or POST within
  the cycle.\<close>

fun deliver_loop ::
  "args \<Rightarrow> cycle_env \<Rightarrow> string option \<Rightarrow> dict list \<Rightarrow> nat \<times> int \<Rightarrow> world
     \<Rightarrow> (py_error + nat \<times> int) \<times> world" where
  "deliver_loop a e webhook_url [] (posted, max_id) w = (Inr (posted, max_id), w)"
| "deliver_loop a e webhook_url (d # ds) (posted, max_id) w =
     (case format_slack_message d (course_id a) (region_prefix a) of
        Inl err \<Rightarrow> (Inl err, w)
      | Inr msg \<Rightarrow>
          if dry_run a \<or> not_set webhook_url then
            (if print_ok e posted
             then deliver_loop a e webhook_url ds (posted + 1, max max_id (post_id d))
                    (w\<lparr>stdout := stdout w @ [msg]\<rparr>)
             else (Inl OSError, w))
          else
            (case post_to_slack e posted (the webhook_url) msg w of
               (Inl err, w') \<Rightarrow> (Inl err, w')
             | (Inr u, w') \<Rightarrow>
                 deliver_loop a e webhook_url ds (posted + 1, max max_id (post_id d)) w'))"

definition poll_once :: "args \<Rightarrow> cycle_env \<Rightarrow> world \<Rightarrow> (py_error + nat) \<times> world" where
  "poll_once a e w =
     (case poll_inputs a e w of
        Inl err \<Rightarrow> (Inl err, w)
      | Inr (webhook_url, state, last_seen_id, threads) \<Rightarrow>
          (let new_posts = select_posts threads last_seen_id (max_posts_per_run a) in
           if new_posts = [] then (Inr 0, w)
           else (case deliver_loop a e webhook_url new_posts (0, last_seen_id) w of
                   (Inl err, w') \<Rightarrow> (Inl err, w')
                 | (Inr (posted, max_id), w') \<Rightarrow>
                     if \<not> dry_run a then
                       (case bind_err (py_setitem state ''last_seen_id'' (JInt max_id)) (\<lambda>s1.
                             py_setitem s1 ''last_run_utc'' (JStr (now_utc e))) of
                          Inl err \<Rightarrow> (Inl err, w')
                        | Inr s2 \<Rightarrow>
                            (case save_state e (files w') (state_file a) s2 of
                               (Inl err, fs') \<Rightarrow> (Inl err, w'\<lparr>files := fs'\<rparr>)
                             | (Inr u, fs') \<Rightarrow> (Inr posted, w'\<lparr>files := fs'\<rparr>)))
                     else (Inr posted, w'))))"

text \<open>The continuous mode of \<^verbatim>\<open>main\<close>, for as many iterations of \<^verbatim>\<open>while True\<close> as there
  are cycle environments: an exception of a cycle is printed to stderr and the loop goes on.\<close>

fun main_loop :: "args \<Rightarrow> cycle_env list \<Rightarrow> world \<Rightarrow> world" where
  "main_loop a [] w = w"
| "main_loop a (e # es) w =
     (case poll_once a e w of
        (Inl err, w') \<Rightarrow> main_loop a es (w'\<lparr>stderr := stderr w' @ [err]\<rparr>)
      | (Inr n, w') \<Rightarrow> main_loop a es w')"

section \<open>Observations\<close>

text \<open>The cursor a cycle starts from: \<^verbatim>\<open>load_state\<close> followed by line 175.\<close>

definition loaded_cursor ::
  "(string \<Rightarrow> int option) \<Rightarrow> (string \<Rightarrow> disk_file) \<Rightarrow> string \<Rightarrow> py_error + int" where
  "loaded_cursor parse fs path = bind_err (load_state fs path) (read_cursor parse)"

text \<open>The integer under \<^verbatim>\<open>last_seen_id\<close> in a state file that holds a JSON object.\<close>

definition persisted_id :: "(string \<Rightarrow> disk_file) \<Rightarrow> string \<Rightarrow> int option" where
  "persisted_id fs path =
     (case fs path of
        Contents (Some (JDict d)) \<Rightarrow>
          (case map_of d ''last_seen_id'' of Some (JInt n) \<Rightarrow> Some n | _ \<Rightarrow> None)
      | _ \<Rightarrow> None)"

text \<open>What reached Slack and what was printed between two worlds, and the discussion ids of
  those messages in the order of delivery.\<close>

definition posted_since :: "world \<Rightarrow> world \<Rightarrow> message list" where
  "posted_since w w' = map snd (drop (length (slack_channel w)) (slack_channel w'))"

definition printed_since :: "world \<Rightarrow> world \<Rightarrow> message list" where
  "printed_since w w' = drop (length (stdout w)) (stdout w')"

definition delivered_ids :: "world \<Rightarrow> world \<Rightarrow> int list" where
  "delivered_ids w w' = List.map_filter discussion_of (posted_since w w' @ printed_since w w')"

text \<open>The threads that take part in the cursor ordering, and those above a cursor.\<close>

definition has_int_id :: "dict \<Rightarrow> bool" where
  "has_int_id d = is_int (dict_get d ''id'')"

definition qualifying :: "dict list \<Rightarrow> int \<Rightarrow> dict list" where
  "qualifying threads c = filter (\<lambda>d. has_int_id d \<and> c < post_id d) threads"

section \<open>Scenarios\<close>

definition thread :: "int \<Rightarrow> dict" where
  "thread i = [(''id'', JInt i), (''title'', JStr ''q'')]"

definition state_at :: "int \<Rightarrow> json" where
  "state_at c = JDict [(''last_seen_id'', JInt c), (''last_run_utc'', JNull)]"

definition args0 :: args where
  "args0 = \<lparr>course_id = 81634, ed_api_host = ''h'', region_prefix = ''us'', interval = 300,
            limit = 30, max_posts_per_run = 2, state_file = ''s'', once = False,
            dry_run = False\<rparr>"

definition threads_reply :: "int list \<Rightarrow> ed_reply" where
  "threads_reply ids = EdResponse 200 (Some (JDict [(''threads'', JList (map (\<lambda>i. JDict (thread i)) ids))]))"

definition env0 :: cycle_env where
  "env0 = \<lparr>ed_reply = threads_reply [3, 6, 8, 7], slack_reply = (\<lambda>k. SlackResponse 200),
           print_ok = (\<lambda>k. True), write_ok = True, now_utc = ''t'',
           int_of_text = (\<lambda>s. None), write_fault = OpenFails\<rparr>"

definition world0 :: world where
  "world0 = \<lparr>environ = (\<lambda>v. if v = ''ED_API_TOKEN'' then Some ''k''
                           else if v = ''SLACK_WEBHOOK_URL'' then Some ''u'' else None),
             files = (\<lambda>p. if p = ''s'' then Contents (Some (state_at 5)) else Missing),
             stdout = [], stderr = [], slack_channel = []\<rparr>"

definition env_fail_second :: cycle_env where
  "env_fail_second = env0\<lparr>ed_reply := threads_reply [6, 7],
      slack_reply := (\<lambda>k. if k = 1 then SlackResponse 500 else SlackResponse 200)\<rparr>"

definition env_boundary :: cycle_env where
  "env_boundary = env0\<lparr>ed_reply := threads_reply [5, 6, 4]\<rparr>"

definition env_same_id :: cycle_env where
  "env_same_id = env0\<lparr>ed_reply := EdResponse 200 (Some (JDict [(''threads'',
      JList [JDict [(''id'', JInt 6), (''title'', JStr ''a'')],
             JDict [(''id'', JInt 6), (''title'', JStr ''b'')]])]))\<rparr>"



definition args_dry :: args where
  "args_dry = args0\<lparr>dry_run := True\<rparr>"

definition world_no_webhook :: world where
  "world_no_webhook = world0\<lparr>environ := (\<lambda>v. if v = ''ED_API_TOKEN'' then Some ''k'' else None)\<rparr>"

definition env_bad_shape :: cycle_env where
  "env_bad_shape = env0\<lparr>ed_reply := EdResponse 200 (Some (JDict [(''data'', JDict [(''threads'', JInt 1)])]))\<rparr>"

definition files_example :: "string \<Rightarrow> disk_file" where
  "files_example = (\<lambda>p. if p = ''locked'' then Unreadable
                         else if p = ''garbled'' then Contents None
                         else if p = ''hidden'' then Hidden
                         else if p = ''number'' then Contents (Some (JInt 7))
                         else if p = ''bare'' then Contents (Some (JDict [(''note'', JNull)]))
                         else Missing)"

definition world_wrong_shape :: world where
  "world_wrong_shape = world0\<lparr>files := (\<lambda>p. if p = ''s''
      then Contents (Some (JDict [(''last_seen_id'', JStr ''abc'')])) else Missing)\<rparr>"

definition args_neg_cap :: args where
  "args_neg_cap = args0\<lparr>max_posts_per_run := - 2\<rparr>"

definition env_replace_fails :: cycle_env where
  "env_replace_fails = env0\<lparr>ed_reply := threads_reply [6, 7], write_ok := False,
      write_fault := ReplaceFails\<rparr>"

definition world_first_run :: world where
  "world_first_run = world0\<lparr>files := (\<lambda>p. Missing)\<rparr>"

definition env_dump_fails :: cycle_env where
  "env_dump_fails = env0\<lparr>write_ok := False, write_fault := DumpFails\<rparr>"

definition env_data_list :: cycle_env where
  "env_data_list = env0\<lparr>ed_reply := EdResponse 200 (Some (JDict [(''data'', JList [JDict (thread 1)])]))\<rparr>"

definition env_print_fails :: cycle_env where
  "env_print_fails = env0\<lparr>print_ok := (\<lambda>k. k \<noteq> 1)\<rparr>"

section \<open>Basic facts about the model\<close>

lemma bind_err_Inr_iff: "bind_err m f = Inr y \<longleftrightarrow> (\<exists>x. m = Inr x \<and> f x = Inr y)"
  by (cases m) (simp_all add: bind_err_def)

lemma bind_err_simps: "bind_err (Inl e) f = Inl e" "bind_err (Inr x) f = f x"
  by (simp_all add: bind_err_def)

lemma py_get_Inr: "py_get v k = Inr x \<Longrightarrow> \<exists>d. v = JDict d \<and> x = dict_get d k"
  by (cases v) simp_all

lemma format_slack_message_id:
  assumes "format_slack_message d cid rp = Inr msg" and "has_int_id d"
  shows "discussion_of msg = Some (post_id d)"
  using assms
  by (auto simp: format_slack_message_def has_int_id_def post_id_def build_discussion_url_def
        bind_err_Inr_iff Let_def split: if_splits)

lemma map_insort_key: "map f (insort_key f x xs) = insort (f x) (map f xs)"
  by (induction xs) simp_all

lemma map_sort_key: "map f (sort_key f xs) = sort (map f xs)"
  by (induction xs) (simp_all add: map_insort_key)

lemma select_posts_nonneg:
  "0 \<le> cap \<Longrightarrow> select_posts threads c cap = take (nat cap) (sort_key post_id (qualifying threads c))"
  by (simp add: select_posts_def qualifying_def slice_to_def has_int_id_def Let_def conj_commute)

lemma select_posts_take:
  "\<exists>n. select_posts threads c cap = take n (sort_key post_id (qualifying threads c))"
  by (auto simp: select_posts_def qualifying_def slice_to_def has_int_id_def Let_def conj_commute)

lemma select_posts_ids:
  "map post_id (select_posts threads c cap)
     = (if 0 \<le> cap then take (nat cap) (sort (map post_id (qualifying threads c)))
        else take (length (sort (map post_id (qualifying threads c))) - nat (- cap))
               (sort (map post_id (qualifying threads c))))"
proof -
  have sel: "select_posts threads c cap = slice_to (sort_key post_id (qualifying threads c)) cap"
    by (simp add: select_posts_def qualifying_def has_int_id_def Let_def conj_commute)
  have n: "nat (int k + cap) = k - nat (- cap)" if "cap < 0" for k :: nat
    using that by linarith
  show ?thesis
    by (simp add: sel slice_to_def take_map [symmetric] map_sort_key n)
qed

lemma set_select_posts:
  "d \<in> set (select_posts threads c cap) \<Longrightarrow> d \<in> set threads \<and> has_int_id d \<and> c < post_id d"
proof -
  assume a: "d \<in> set (select_posts threads c cap)"
  obtain n where "select_posts threads c cap = take n (sort_key post_id (qualifying threads c))"
    using select_posts_take by blast
  with a have "d \<in> set (sort_key post_id (qualifying threads c))"
    by (auto dest: in_set_takeD)
  then show ?thesis by (simp add: qualifying_def)
qed

lemma sorted_select_posts: "sorted (map post_id (select_posts threads c cap))"
proof -
  obtain n where n: "select_posts threads c cap = take n (sort_key post_id (qualifying threads c))"
    using select_posts_take by blast
  have "sorted (take n (map post_id (sort_key post_id (qualifying threads c))))"
    by (rule sorted_wrt_take) simp
  then show ?thesis by (simp add: n take_map)
qed

lemma poll_inputs_Inr:
  assumes "poll_inputs a e w = Inr (url, state, c, threads)"
  shows "\<not> not_set (environ w ''ED_API_TOKEN'')"
    and "url = environ w ''SLACK_WEBHOOK_URL''"
    and "load_state (files w) (state_file a) = Inr state"
    and "read_cursor (int_of_text e) state = Inr c"
    and "fetch_latest_threads e = Inr threads"
  using assms
  by (auto simp: poll_inputs_def Let_def bind_err_Inr_iff split: if_splits)

lemma read_cursor_dict: "read_cursor parse state = Inr c \<Longrightarrow> \<exists>d. state = JDict d"
  by (auto simp: read_cursor_def bind_err_Inr_iff dest: py_get_Inr)

lemma post_to_slack_cases:
  "post_to_slack e k u msg w = (r, w') \<Longrightarrow>
     (\<exists>err. r = Inl err \<and> w' = w) \<or>
     (r = Inr () \<and> w' = w\<lparr>slack_channel := slack_channel w @ [(u, msg)]\<rparr>)"
  by (auto simp: post_to_slack_def split: slack_reply.splits if_splits)

lemma deliver_loop_effect:
  assumes "deliver_loop a e url ds (p, m) w = (r, w')" and "\<forall>d\<in>set ds. has_int_id d"
  shows "\<exists>ms. map discussion_of ms = map (\<lambda>d. Some (post_id d)) (take (length ms) ds)
      \<and> length ms \<le> length ds
      \<and> files w' = files w \<and> environ w' = environ w \<and> stderr w' = stderr w
      \<and> (if dry_run a \<or> not_set url
           then stdout w' = stdout w @ ms \<and> slack_channel w' = slack_channel w
           else stdout w' = stdout w \<and> slack_channel w' = slack_channel w @ map (Pair (the url)) ms)
      \<and> (case r of Inl err \<Rightarrow> length ms < length ds
                    | Inr (p', m') \<Rightarrow> length ms = length ds \<and> p' = p + length ds
                                      \<and> m' = fold max (map post_id ds) m)"
  using assms
proof (induction ds arbitrary: p m w)
  case Nil
  then show ?case by (auto intro: exI[of _ "[]"])
next
  case (Cons d ds)
  let ?goal = "\<lambda>ms. map discussion_of ms = map (\<lambda>d. Some (post_id d)) (take (length ms) (d # ds))
      \<and> length ms \<le> length (d # ds)
      \<and> files w' = files w \<and> environ w' = environ w \<and> stderr w' = stderr w
      \<and> (if dry_run a \<or> not_set url
           then stdout w' = stdout w @ ms \<and> slack_channel w' = slack_channel w
           else stdout w' = stdout w \<and> slack_channel w' = slack_channel w @ map (Pair (the url)) ms)
      \<and> (case r of Inl err \<Rightarrow> length ms < length (d # ds)
                    | Inr (p', m') \<Rightarrow> length ms = length (d # ds) \<and> p' = p + length (d # ds)
                                      \<and> m' = fold max (map post_id (d # ds)) m)"
  have ints: "\<forall>x\<in>set ds. has_int_id x" and intd: "has_int_id d"
    using Cons.prems(2) by simp_all
  show ?case
  proof (cases "format_slack_message d (course_id a) (region_prefix a)")
    case (Inl err)
    with Cons.prems(1) have "r = Inl err" "w' = w" by simp_all
    then have "?goal []" by simp
    then show ?thesis by blast
  next
    case (Inr msg)
    have id: "discussion_of msg = Some (post_id d)"
      using format_slack_message_id [OF Inr intd] .
    show ?thesis
    proof (cases "dry_run a \<or> not_set url")
      case True
      show ?thesis
      proof (cases "print_ok e p")
        case False
        with Cons.prems(1) Inr True have "r = Inl OSError" "w' = w" by auto
        then have "?goal []" by simp
        then show ?thesis by blast
      next
        case ok: True
        from Cons.prems(1) Inr True ok
        have rec: "deliver_loop a e url ds (p + 1, max m (post_id d)) (w\<lparr>stdout := stdout w @ [msg]\<rparr>) = (r, w')"
          by auto
        from Cons.IH [OF rec ints] obtain ms where
          ms: "map discussion_of ms = map (\<lambda>d. Some (post_id d)) (take (length ms) ds)"
              "length ms \<le> length ds"
              "files w' = files w" "environ w' = environ w" "stderr w' = stderr w"
              "stdout w' = stdout w @ [msg] @ ms" "slack_channel w' = slack_channel w"
              "(case r of Inl err \<Rightarrow> length ms < length ds
                    | Inr (p', m') \<Rightarrow> length ms = length ds \<and> p' = p + 1 + length ds
                                      \<and> m' = fold max (map post_id ds) (max m (post_id d)))"
          using True by auto
        have "?goal (msg # ms)"
          using ms id True by (auto simp: max.commute split: sum.splits)
        then show ?thesis by blast
      qed
    next
      case False
      obtain r1 w1 where p1: "post_to_slack e p (the url) msg w = (r1, w1)"
        by (cases "post_to_slack e p (the url) msg w") blast
      from post_to_slack_cases [OF p1] show ?thesis
      proof
        assume "\<exists>err. r1 = Inl err \<and> w1 = w"
        then obtain err where "r1 = Inl err" "w1 = w" by blast
        with Cons.prems(1) Inr False p1 have "r = Inl err" "w' = w" by auto
        then have "?goal []" by simp
        then show ?thesis by blast
      next
        assume s: "r1 = Inr () \<and> w1 = w\<lparr>slack_channel := slack_channel w @ [(the url, msg)]\<rparr>"
        with Cons.prems(1) Inr False p1
        have rec: "deliver_loop a e url ds (p + 1, max m (post_id d)) w1 = (r, w')"
          by auto
        from Cons.IH [OF rec ints] obtain ms where
          ms: "map discussion_of ms = map (\<lambda>d. Some (post_id d)) (take (length ms) ds)"
              "length ms \<le> length ds"
              "files w' = files w" "environ w' = environ w" "stderr w' = stderr w"
              "stdout w' = stdout w"
              "slack_channel w' = slack_channel w @ [(the url, msg)] @ map (Pair (the url)) ms"
              "(case r of Inl err \<Rightarrow> length ms < length ds
                    | Inr (p', m') \<Rightarrow> length ms = length ds \<and> p' = p + 1 + length ds
                                      \<and> m' = fold max (map post_id ds) (max m (post_id d)))"
          using False s by auto
        have "?goal (msg # ms)"
          using ms id False by (auto simp: max.commute split: sum.splits)
        then show ?thesis by blast
      qed
    qed
  qed
qed

lemma map_filter_Some:
  "map f ms = map (\<lambda>d. Some (g d)) xs \<Longrightarrow> List.map_filter f ms = map g xs"
  by (induction ms arbitrary: xs) (auto simp: map_filter_simps)

lemma save_state_effect:
  assumes "save_state e fs path (JDict d) = (res, fs')"
  shows "\<forall>p. p \<noteq> path @ ''.tmp'' \<and> p \<noteq> path \<longrightarrow> fs' p = fs p"
    and "case res of
           Inr u \<Rightarrow> write_ok e \<and> fs' path = Contents (Some (JDict d))
                     \<and> fs' (path @ ''.tmp'') = Missing
         | Inl err \<Rightarrow> \<not> write_ok e \<and> fs' path = fs path
                     \<and> (fs' (path @ ''.tmp'') = fs (path @ ''.tmp'')
                          \<or> fs' (path @ ''.tmp'') = Contents None
                          \<or> fs' (path @ ''.tmp'') = Contents (Some (JDict d)))"
proof -
  show "\<forall>p. p \<noteq> path @ ''.tmp'' \<and> p \<noteq> path \<longrightarrow> fs' p = fs p"
    using assms
    by (cases "write_fault e") (auto simp: save_state_def Let_def split: if_splits)
  show "case res of
           Inr u \<Rightarrow> write_ok e \<and> fs' path = Contents (Some (JDict d))
                     \<and> fs' (path @ ''.tmp'') = Missing
         | Inl err \<Rightarrow> \<not> write_ok e \<and> fs' path = fs path
                     \<and> (fs' (path @ ''.tmp'') = fs (path @ ''.tmp'')
                          \<or> fs' (path @ ''.tmp'') = Contents None
                          \<or> fs' (path @ ''.tmp'') = Contents (Some (JDict d)))"
    using assms
    by (cases "write_fault e")
       (auto simp: save_state_def Let_def split: if_splits sum.splits)
qed

lemma loaded_cursor_cong:
  "fs' path = fs path \<Longrightarrow> loaded_cursor parse fs' path = loaded_cursor parse fs path"
  by (simp add: loaded_cursor_def load_state_def)

lemma map_of_dict_set: "map_of (dict_set d k v) = (map_of d)(k \<mapsto> v)"
  by (induction d k v rule: dict_set.induct) (auto simp: fun_eq_iff)

lemma poll_once_summary:
  assumes inp: "poll_inputs a e w = Inr (url, state, c, threads)"
      and run: "poll_once a e w = (r, w')"
      and new: "new = select_posts threads c (max_posts_per_run a)"
  shows "\<exists>ms. map discussion_of ms = map (\<lambda>d. Some (post_id d)) (take (length ms) new)
      \<and> length ms \<le> length new
      \<and> environ w' = environ w \<and> stderr w' = stderr w
      \<and> (if dry_run a \<or> not_set url
           then stdout w' = stdout w @ ms \<and> slack_channel w' = slack_channel w
           else stdout w' = stdout w \<and> slack_channel w' = slack_channel w @ map (Pair (the url)) ms)
      \<and> (case r of
             Inl err \<Rightarrow>
               (length ms < length new \<or> dry_run a \<longrightarrow> files w' = files w)
               \<and> files w' (state_file a) = files w (state_file a)
               \<and> (\<forall>p. p \<noteq> state_file a @ ''.tmp'' \<longrightarrow> files w' p = files w p)
               \<and> (files w' (state_file a @ ''.tmp'') = files w (state_file a @ ''.tmp'')
                    \<or> files w' (state_file a @ ''.tmp'') = Contents None
                    \<or> persisted_id (files w') (state_file a @ ''.tmp'')
                        = Some (fold max (map post_id new) c))
           | Inr n \<Rightarrow> n = length new \<and> length ms = length new \<and>
               (if dry_run a \<or> new = [] then files w' = files w
                else write_ok e
                   \<and> (\<forall>p. p \<noteq> state_file a \<and> p \<noteq> state_file a @ ''.tmp'' \<longrightarrow> files w' p = files w p)
                   \<and> files w' (state_file a @ ''.tmp'') = Missing
                   \<and> persisted_id (files w') (state_file a) = Some (fold max (map post_id new) c)))"
    (is "\<exists>ms. ?goal ms")
proof (cases "new = []")
  case True
  with inp run new have "r = Inr 0" "w' = w" by (simp_all add: poll_once_def)
  with True have "?goal []" by simp
  then show ?thesis by blast
next
  case False
  obtain r1 w1 where loop: "deliver_loop a e url new (0, c) w = (r1, w1)"
    by (cases "deliver_loop a e url new (0, c) w") blast
  have ints: "\<forall>d\<in>set new. has_int_id d"
    using new set_select_posts by blast
  from deliver_loop_effect [OF loop ints] obtain ms where
    ms: "map discussion_of ms = map (\<lambda>d. Some (post_id d)) (take (length ms) new)"
        "length ms \<le> length new"
        "files w1 = files w" "environ w1 = environ w" "stderr w1 = stderr w"
        "if dry_run a \<or> not_set url
           then stdout w1 = stdout w @ ms \<and> slack_channel w1 = slack_channel w
           else stdout w1 = stdout w \<and> slack_channel w1 = slack_channel w @ map (Pair (the url)) ms"
        "case r1 of Inl err \<Rightarrow> length ms < length new
                    | Inr (p', m') \<Rightarrow> length ms = length new \<and> p' = 0 + length new
                                      \<and> m' = fold max (map post_id new) c"
    by blast
  show ?thesis
  proof (cases r1)
    case (Inl err)
    with inp run new False loop have "r = Inl err" "w' = w1" by (simp_all add: poll_once_def)
    with ms Inl have "?goal ms" by simp
    then show ?thesis by blast
  next
    case (Inr pm)
    obtain posted max_id where pm: "pm = (posted, max_id)" by (cases pm)
    from ms(7) Inr pm have fin: "length ms = length new" "posted = length new"
      "max_id = fold max (map post_id new) c" by simp_all
    show ?thesis
    proof (cases "dry_run a")
      case True
      with inp run new False loop Inr pm have "r = Inr posted" "w' = w1"
        by (simp_all add: poll_once_def)
      with ms fin True have "?goal ms" by simp
      then show ?thesis by blast
    next
      case nodry: False
      obtain d0 where d0: "state = JDict d0"
        using read_cursor_dict poll_inputs_Inr(4) [OF inp] by blast
      let ?d2 = "dict_set (dict_set d0 ''last_seen_id'' (JInt max_id)) ''last_run_utc'' (JStr (now_utc e))"
      obtain res fs' where saved: "save_state e (files w1) (state_file a) (JDict ?d2) = (res, fs')"
        by (cases "save_state e (files w1) (state_file a) (JDict ?d2)") blast
      have w': "w' = w1\<lparr>files := fs'\<rparr>"
        using inp run new False loop \<open>r1 = Inr pm\<close> pm nodry d0 saved
        by (cases res) (simp_all add: poll_once_def bind_err_def)
      have other: "\<forall>p. p \<noteq> state_file a @ ''.tmp'' \<and> p \<noteq> state_file a \<longrightarrow> fs' p = files w p"
        using save_state_effect(1) [OF saved] ms(3) by simp
      have pid: "map_of ?d2 ''last_seen_id'' = Some (JInt max_id)"
        by (simp add: map_of_dict_set)
      show ?thesis
      proof (cases res)
        case (Inl err)
        with inp run new False loop \<open>r1 = Inr pm\<close> pm nodry d0 saved
        have res: "r = Inl err" by (simp add: poll_once_def bind_err_def)
        from save_state_effect(2) [OF saved] Inl ms(3)
        have same: "fs' (state_file a) = files w (state_file a)"
          and tmp: "fs' (state_file a @ ''.tmp'') = files w (state_file a @ ''.tmp'')
                  \<or> fs' (state_file a @ ''.tmp'') = Contents None
                  \<or> fs' (state_file a @ ''.tmp'') = Contents (Some (JDict ?d2))"
          by simp_all
        have all: "\<forall>p. p \<noteq> state_file a @ ''.tmp'' \<longrightarrow> fs' p = files w p"
          using other same by metis
        have tmp': "fs' (state_file a @ ''.tmp'') = files w (state_file a @ ''.tmp'')
                  \<or> fs' (state_file a @ ''.tmp'') = Contents None
                  \<or> persisted_id fs' (state_file a @ ''.tmp'') = Some (fold max (map post_id new) c)"
          using tmp pid fin(3) by (auto simp: persisted_id_def)
        have "?goal ms"
          using ms(1,2,4,5,6) fin(1) res w' nodry same all tmp' by simp
        then show ?thesis by blast
      next
        case (Inr u)
        with inp run new False loop \<open>r1 = Inr pm\<close> pm nodry d0 saved
        have res: "r = Inr posted" by (simp add: poll_once_def bind_err_def)
        from save_state_effect(2) [OF saved] Inr
        have ok: "write_ok e" "fs' (state_file a) = Contents (Some (JDict ?d2))"
          "fs' (state_file a @ ''.tmp'') = Missing" by simp_all
        have pid': "persisted_id fs' (state_file a) = Some (fold max (map post_id new) c)"
          using ok(2) pid fin(3) by (simp add: persisted_id_def)
        have "?goal ms"
          using ms(1,2,4,5,6) fin(1,2) res w' nodry False ok(1,3) other pid' by simp
        then show ?thesis by blast
      qed
    qed
  qed
qed

lemma fold_max_ge: "(c::int) \<le> fold max xs c"
proof (induction xs arbitrary: c)
  case Nil show ?case by simp
next
  case (Cons x xs)
  have "c \<le> max x c" by simp
  also have "\<dots> \<le> fold max xs (max x c)" by (rule Cons.IH)
  finally show ?case by simp
qed

lemma fold_max_Max:
  assumes "xs \<noteq> []" and "\<forall>x\<in>set xs. (c::int) < x"
  shows "fold max xs c = Max (set xs)"
proof -
  have "fold max xs c = Max (set (c # xs))" by (simp only: Max.set_eq_fold)
  also have "\<dots> = max c (Max (set xs))" using assms(1) by simp
  also have "\<dots> = Max (set xs)"
  proof -
    obtain x where "x \<in> set xs" using assms(1) by (cases xs) auto
    then have "c < x" "x \<le> Max (set xs)" using assms(2) by simp_all
    then show ?thesis by simp
  qed
  finally show ?thesis .
qed

lemma delivered_ids_printed:
  assumes "stdout w' = stdout w @ ms" and "slack_channel w' = slack_channel w"
      and "map discussion_of ms = map (\<lambda>d. Some (post_id d)) xs"
  shows "delivered_ids w w' = map post_id xs"
  using assms(1,2) map_filter_Some [OF assms(3)]
  by (simp add: delivered_ids_def posted_since_def printed_since_def)

lemma delivered_ids_posted:
  assumes "stdout w' = stdout w" and "slack_channel w' = slack_channel w @ map (Pair u) ms"
      and "map discussion_of ms = map (\<lambda>d. Some (post_id d)) xs"
  shows "delivered_ids w w' = map post_id xs"
  using assms(1,2) map_filter_Some [OF assms(3)]
  by (simp add: delivered_ids_def posted_since_def printed_since_def comp_def)

lemma poll_once_delivered:
  assumes inp: "poll_inputs a e w = Inr (url, state, c, threads)"
      and run: "poll_once a e w = (r, w')"
      and new: "new = select_posts threads c (max_posts_per_run a)"
  shows "\<exists>k\<le>length new. delivered_ids w w' = map post_id (take k new)
           \<and> (\<forall>n. r = Inr n \<longrightarrow> k = length new \<and> n = length new)
           \<and> (\<forall>err. r = Inl err \<and> k < length new \<longrightarrow> files w' = files w)"
proof -
  from poll_once_summary [OF inp run new] obtain ms where
    ms: "map discussion_of ms = map (\<lambda>d. Some (post_id d)) (take (length ms) new)"
        "length ms \<le> length new"
        "if dry_run a \<or> not_set url
           then stdout w' = stdout w @ ms \<and> slack_channel w' = slack_channel w
           else stdout w' = stdout w \<and> slack_channel w' = slack_channel w @ map (Pair (the url)) ms"
    and fin: "case r of
             Inl err \<Rightarrow>
               (length ms < length new \<or> dry_run a \<longrightarrow> files w' = files w)
               \<and> files w' (state_file a) = files w (state_file a)
               \<and> (\<forall>p. p \<noteq> state_file a @ ''.tmp'' \<longrightarrow> files w' p = files w p)
               \<and> (files w' (state_file a @ ''.tmp'') = files w (state_file a @ ''.tmp'')
                    \<or> files w' (state_file a @ ''.tmp'') = Contents None
                    \<or> persisted_id (files w') (state_file a @ ''.tmp'')
                        = Some (fold max (map post_id new) c))
           | Inr n \<Rightarrow> n = length new \<and> length ms = length new \<and>
               (if dry_run a \<or> new = [] then files w' = files w
                else write_ok e
                   \<and> (\<forall>p. p \<noteq> state_file a \<and> p \<noteq> state_file a @ ''.tmp'' \<longrightarrow> files w' p = files w p)
                   \<and> files w' (state_file a @ ''.tmp'') = Missing
                   \<and> persisted_id (files w') (state_file a) = Some (fold max (map post_id new) c))"
    by blast
  have ids: "delivered_ids w w' = map post_id (take (length ms) new)"
  proof (cases "dry_run a \<or> not_set url")
    case True
    with ms(3) have "stdout w' = stdout w @ ms" "slack_channel w' = slack_channel w" by simp_all
    then show ?thesis using ms(1) by (rule delivered_ids_printed)
  next
    case False
    with ms(3) have "stdout w' = stdout w"
      "slack_channel w' = slack_channel w @ map (Pair (the url)) ms" by simp_all
    then show ?thesis using ms(1) by (rule delivered_ids_posted)
  qed
  have "\<forall>n. r = Inr n \<longrightarrow> length ms = length new \<and> n = length new"
    using fin by (cases r) simp_all
  moreover have "\<forall>err. r = Inl err \<and> length ms < length new \<longrightarrow> files w' = files w"
    using fin by (cases r) simp_all
  ultimately show ?thesis using ids ms(2) by blast
qed

lemma poll_once_files:
  assumes inp: "poll_inputs a e w = Inr (url, state, c, threads)"
      and run: "poll_once a e w = (r, w')"
      and new: "new = select_posts threads c (max_posts_per_run a)"
  shows "files w' (state_file a) = files w (state_file a) \<or>
         (\<not> dry_run a \<and> new \<noteq> [] \<and> write_ok e \<and> (\<exists>n. r = Inr n) \<and>
          persisted_id (files w') (state_file a) = Some (fold max (map post_id new) c))"
    and "files w' p \<noteq> files w p \<Longrightarrow> persisted_id (files w') p = Some m
          \<Longrightarrow> m = fold max (map post_id new) c"
proof -
  from poll_once_summary [OF inp run new] obtain ms :: "message list" where
    fin: "case r of
             Inl err \<Rightarrow>
               (length ms < length new \<or> dry_run a \<longrightarrow> files w' = files w)
               \<and> files w' (state_file a) = files w (state_file a)
               \<and> (\<forall>p. p \<noteq> state_file a @ ''.tmp'' \<longrightarrow> files w' p = files w p)
               \<and> (files w' (state_file a @ ''.tmp'') = files w (state_file a @ ''.tmp'')
                    \<or> files w' (state_file a @ ''.tmp'') = Contents None
                    \<or> persisted_id (files w') (state_file a @ ''.tmp'')
                        = Some (fold max (map post_id new) c))
           | Inr n \<Rightarrow> n = length new \<and> length ms = length new \<and>
               (if dry_run a \<or> new = [] then files w' = files w
                else write_ok e
                   \<and> (\<forall>p. p \<noteq> state_file a \<and> p \<noteq> state_file a @ ''.tmp'' \<longrightarrow> files w' p = files w p)
                   \<and> files w' (state_file a @ ''.tmp'') = Missing
                   \<and> persisted_id (files w') (state_file a) = Some (fold max (map post_id new) c))"
    by blast
  show "files w' (state_file a) = files w (state_file a) \<or>
         (\<not> dry_run a \<and> new \<noteq> [] \<and> write_ok e \<and> (\<exists>n. r = Inr n) \<and>
          persisted_id (files w') (state_file a) = Some (fold max (map post_id new) c))"
  proof (cases r)
    case (Inl err)
    with fin show ?thesis by simp
  next
    case (Inr n)
    show ?thesis
    proof (cases "dry_run a \<or> new = []")
      case True
      with fin Inr have "files w' = files w" by simp
      then show ?thesis by simp
    next
      case False
      with fin Inr have "write_ok e"
        "persisted_id (files w') (state_file a) = Some (fold max (map post_id new) c)"
        by simp_all
      with False Inr show ?thesis by simp
    qed
  qed
  assume ch: "files w' p \<noteq> files w p" and pm: "persisted_id (files w') p = Some m"
  show "m = fold max (map post_id new) c"
  proof (cases r)
    case (Inl err)
    with fin have other: "\<forall>p. p \<noteq> state_file a @ ''.tmp'' \<longrightarrow> files w' p = files w p"
      and tmp: "files w' (state_file a @ ''.tmp'') = files w (state_file a @ ''.tmp'')
                    \<or> files w' (state_file a @ ''.tmp'') = Contents None
                    \<or> persisted_id (files w') (state_file a @ ''.tmp'')
                        = Some (fold max (map post_id new) c)"
      by simp_all
    from other ch have p: "p = state_file a @ ''.tmp''" by blast
    from tmp show ?thesis
    proof (elim disjE)
      assume "files w' (state_file a @ ''.tmp'') = files w (state_file a @ ''.tmp'')"
      with ch p show ?thesis by simp
    next
      assume "files w' (state_file a @ ''.tmp'') = Contents None"
      with pm p show ?thesis by (simp add: persisted_id_def)
    next
      assume "persisted_id (files w') (state_file a @ ''.tmp'')
                = Some (fold max (map post_id new) c)"
      with pm p show ?thesis by simp
    qed
  next
    case (Inr n)
    show ?thesis
    proof (cases "dry_run a \<or> new = []")
      case True
      with fin Inr have "files w' = files w" by simp
      with ch show ?thesis by simp
    next
      case False
      with fin Inr have other: "\<forall>p. p \<noteq> state_file a \<and> p \<noteq> state_file a @ ''.tmp'' \<longrightarrow> files w' p = files w p"
        and tmp: "files w' (state_file a @ ''.tmp'') = Missing"
        and st: "persisted_id (files w') (state_file a) = Some (fold max (map post_id new) c)"
        by simp_all
      from other ch have "p = state_file a \<or> p = state_file a @ ''.tmp''" by blast
      then show ?thesis
      proof
        assume "p = state_file a"
        with st pm show ?thesis by simp
      next
        assume "p = state_file a @ ''.tmp''"
        with tmp pm show ?thesis by (simp add: persisted_id_def)
      qed
    qed
  qed
qed

lemma poll_once_no_inputs:
  "poll_inputs a e w = Inl err \<Longrightarrow> poll_once a e w = (Inl err, w)"
  by (simp add: poll_once_def)

lemma loaded_cursor_persisted:
  assumes "persisted_id fs path = Some n"
  shows "loaded_cursor parse fs path = Inr n"
proof -
  from assms obtain d where d: "fs path = Contents (Some (JDict d))"
    and m: "map_of d ''last_seen_id'' = Some (JInt n)"
    by (auto simp: persisted_id_def split: disk_file.splits option.splits json.splits)
  from m have "''last_seen_id'' \<in> fst ` set d" by (metis map_of_eq_None_iff option.distinct(1))
  then have "load_state fs path = Inr (JDict d)"
    using d by (simp add: load_state_def load_state_try_def path_exists_def bind_err_def)
  moreover have "read_cursor parse (JDict d) = Inr n"
    using m by (simp add: read_cursor_def bind_err_def dict_get_def py_or_def)
  ultimately show ?thesis by (simp add: loaded_cursor_def bind_err_def)
qed

lemma poll_inputs_loaded_cursor:
  "poll_inputs a e w = Inr (url, state, c, threads) \<Longrightarrow>
     loaded_cursor (int_of_text e) (files w) (state_file a) = Inr c"
  using poll_inputs_Inr(3,4) [of a e w url state c threads]
  by (simp add: loaded_cursor_def bind_err_def)

lemma poll_once_cursor_step:
  assumes run: "poll_once a e w = (r, w')"
      and lc: "loaded_cursor (int_of_text e) (files w) (state_file a) = Inr c"
  shows "\<exists>c'. loaded_cursor (int_of_text e) (files w') (state_file a) = Inr c' \<and> c \<le> c'"
proof (cases "poll_inputs a e w")
  case (Inl err)
  with run have "w' = w" by (simp add: poll_once_def)
  with lc show ?thesis by auto
next
  case (Inr t)
  obtain url state c2 threads where t: "t = (url, state, c2, threads)" by (cases t)
  have inp: "poll_inputs a e w = Inr (url, state, c2, threads)" using Inr t by simp
  have c2: "c2 = c" using poll_inputs_loaded_cursor [OF inp] lc by simp
  from poll_once_files(1) [OF inp run refl] show ?thesis
  proof
    assume "files w' (state_file a) = files w (state_file a)"
    then have "loaded_cursor (int_of_text e) (files w') (state_file a)
                 = loaded_cursor (int_of_text e) (files w) (state_file a)"
      by (rule loaded_cursor_cong)
    with lc show ?thesis by auto
  next
    assume "\<not> dry_run a \<and> select_posts threads c2 (max_posts_per_run a) \<noteq> [] \<and> write_ok e \<and> (\<exists>n. r = Inr n) \<and>
          persisted_id (files w') (state_file a)
            = Some (fold max (map post_id (select_posts threads c2 (max_posts_per_run a))) c2)"
    then have "loaded_cursor (int_of_text e) (files w') (state_file a)
                 = Inr (fold max (map post_id (select_posts threads c2 (max_posts_per_run a))) c2)"
      by (simp add: loaded_cursor_persisted)
    then show ?thesis using fold_max_ge c2 by auto
  qed
qed

lemma main_loop_cursor:
  assumes "\<forall>e\<in>set es. int_of_text e = parse"
      and "loaded_cursor parse (files w) (state_file a) = Inr c"
  shows "\<exists>c'. loaded_cursor parse (files (main_loop a es w)) (state_file a) = Inr c' \<and> c \<le> c'"
  using assms
proof (induction es arbitrary: w c)
  case Nil
  then show ?case by simp
next
  case (Cons e es)
  obtain r w1 where run: "poll_once a e w = (r, w1)" by (cases "poll_once a e w") blast
  have pe: "int_of_text e = parse" using Cons.prems(1) by simp
  from poll_once_cursor_step [OF run] Cons.prems(2) pe obtain c1 where
    c1: "loaded_cursor parse (files w1) (state_file a) = Inr c1" "c \<le> c1" by auto
  have rest: "\<forall>e\<in>set es. int_of_text e = parse" using Cons.prems(1) by simp
  show ?case
  proof (cases r)
    case (Inl err)
    have "loaded_cursor parse (files (w1\<lparr>stderr := stderr w1 @ [err]\<rparr>)) (state_file a) = Inr c1"
      using c1(1) by simp
    from Cons.IH [OF rest this] obtain c' where
      "loaded_cursor parse (files (main_loop a es (w1\<lparr>stderr := stderr w1 @ [err]\<rparr>))) (state_file a) = Inr c'"
      "c1 \<le> c'" by blast
    with run Inl c1(2) show ?thesis by auto
  next
    case (Inr n)
    from Cons.IH [OF rest c1(1)] obtain c' where
      "loaded_cursor parse (files (main_loop a es w1)) (state_file a) = Inr c'" "c1 \<le> c'" by blast
    with run Inr c1(2) show ?thesis by auto
  qed
qed

lemmas scenario_defs =
  args0_def env0_def world0_def threads_reply_def thread_def state_at_def

lemmas model_defs =
  poll_once_def poll_inputs_def not_set_def load_state_def load_state_try_def bind_err_def
  read_cursor_def dict_get_def py_or_def fetch_latest_threads_def request_json_def
  List.map_filter_def select_posts_def post_id_def slice_to_def format_slack_message_def
  build_discussion_url_def post_to_slack_def save_state_def path_exists_def Let_def

lemmas observe_defs = delivered_ids_def posted_since_def printed_since_def



lemma deliver_loop_write_ok:
  "deliver_loop a (e\<lparr>write_ok := b\<rparr>) url ds (p, m) w = deliver_loop a e url ds (p, m) w"
  by (induction ds arbitrary: p m w)
     (simp_all add: post_to_slack_def cong: sum.case_cong if_cong prod.case_cong)

lemma poll_inputs_write_ok: "poll_inputs a (e\<lparr>write_ok := b\<rparr>) w = poll_inputs a e w"
  by (simp add: poll_inputs_def fetch_latest_threads_def)

lemma poll_once_dry_write_ok:
  assumes "dry_run a"
  shows "poll_once a (e\<lparr>write_ok := b\<rparr>) w = poll_once a e w"
  using assms
  by (simp add: poll_once_def poll_inputs_write_ok deliver_loop_write_ok
           cong: sum.case_cong if_cong prod.case_cong)

lemma poll_once_dry_files:
  assumes dry: "dry_run a" and run: "poll_once a e w = (r, w')"
  shows "files w' = files w \<and> slack_channel w' = slack_channel w"
proof (cases "poll_inputs a e w")
  case (Inl err)
  with run show ?thesis by (simp add: poll_once_def)
next
  case (Inr t)
  obtain url state c threads where "t = (url, state, c, threads)" by (cases t)
  with Inr have inp: "poll_inputs a e w = Inr (url, state, c, threads)" by simp
  from poll_once_summary [OF inp run refl] dry show ?thesis by (cases r) auto
qed

lemma main_loop_dry_files:
  assumes "dry_run a"
  shows "files (main_loop a es w) = files w \<and> slack_channel (main_loop a es w) = slack_channel w"
proof (induction es arbitrary: w)
  case Nil
  show ?case by simp
next
  case (Cons e es)
  obtain r w1 where run: "poll_once a e w = (r, w1)" by (cases "poll_once a e w") blast
  from poll_once_dry_files [OF assms run]
  have w1: "files w1 = files w" "slack_channel w1 = slack_channel w" by simp_all
  show ?case
  proof (cases r)
    case (Inl err)
    with run Cons.IH [of "w1\<lparr>stderr := stderr w1 @ [err]\<rparr>"] w1 show ?thesis by simp
  next
    case (Inr n)
    with run Cons.IH [of w1] w1 show ?thesis by simp
  qed
qed

section \<open>Commit discipline\<close>

lemma fail_second_run:
  "fst (poll_once args0 env_fail_second world0) = Inl (SlackWebhookFailed 500)"
  by (simp add: env_fail_second_def scenario_defs model_defs)

lemma fail_second_inputs:
  "poll_inputs args0 env_fail_second world0 = Inr (Some ''u'', state_at 5, 5, [thread 6, thread 7])"
  by (simp add: env_fail_second_def scenario_defs model_defs)

lemma fail_second_delivered:
  "delivered_ids world0 (snd (poll_once args0 env_fail_second world0)) = [6]"
  by (simp add: env_fail_second_def scenario_defs model_defs observe_defs)

lemma fail_second_retry:
  "delivered_ids (snd (poll_once args0 env_fail_second world0))
     (snd (poll_once args0 (env_fail_second\<lparr>slack_reply := (\<lambda>k. SlackResponse 200)\<rparr>)
            (snd (poll_once args0 env_fail_second world0)))) = [6, 7]"
  by (simp add: env_fail_second_def scenario_defs model_defs observe_defs)

lemma replace_fails_run:
  "fst (poll_once args0 env_replace_fails world0) = Inl OSError"
  "delivered_ids world0 (snd (poll_once args0 env_replace_fails world0)) = [6, 7]"
  "persisted_id (files (snd (poll_once args0 env_replace_fails world0))) ''s.tmp'' = Some 7"
  by (simp_all add: env_replace_fails_def scenario_defs model_defs observe_defs persisted_id_def)

lemma dump_fails_first_run:
  "fst (poll_once args0 env_dump_fails world_first_run) = Inl OSError"
  "files (snd (poll_once args0 env_dump_fails world_first_run)) ''s.tmp'' = Contents None"
  by (simp_all add: env_dump_fails_def world_first_run_def zero_state_def scenario_defs model_defs)

text \<open>
  Claim C1. When a cycle ends in an exception, the state file is what it was before the cycle
  (of all files only the temporary file of a failed \<^verbatim>\<open>save_state\<close> can differ), so the next
  cycle reads the same inputs from the same cursor. The ids delivered before the exception
  are those of a prefix of the batch and stay delivered; and when the exception came before the
  whole batch was delivered, that is from a delivery, no file at all has changed.
\<close>

theorem failed_cycle_keeps_cursor:
  assumes "poll_once a e w = (Inl err, w')"
  shows "files w' (state_file a) = files w (state_file a)
       \<and> (\<forall>p. p \<noteq> state_file a @ ''.tmp'' \<longrightarrow> files w' p = files w p)
       \<and> (\<forall>e'. poll_inputs a e' w' = poll_inputs a e' w)
       \<and> (\<forall>url state c threads. poll_inputs a e w = Inr (url, state, c, threads) \<longrightarrow>
            (\<exists>k\<le>length (select_posts threads c (max_posts_per_run a)).
               delivered_ids w w' = map post_id (take k (select_posts threads c (max_posts_per_run a)))
               \<and> (k < length (select_posts threads c (max_posts_per_run a)) \<longrightarrow>
                     files w' = files w)))"
proof -
  have fe: "files w' (state_file a) = files w (state_file a)
            \<and> (\<forall>p. p \<noteq> state_file a @ ''.tmp'' \<longrightarrow> files w' p = files w p)
            \<and> environ w' = environ w"
  proof (cases "poll_inputs a e w")
    case (Inl x)
    with assms show ?thesis by (simp add: poll_once_def)
  next
    case (Inr t)
    obtain url state c threads where "t = (url, state, c, threads)" by (cases t)
    with Inr have inp: "poll_inputs a e w = Inr (url, state, c, threads)" by simp
    from poll_once_summary [OF inp assms refl] show ?thesis by auto
  qed
  then have "\<forall>e'. poll_inputs a e' w' = poll_inputs a e' w"
    by (simp add: poll_inputs_def load_state_def)
  moreover have "\<forall>url state c threads. poll_inputs a e w = Inr (url, state, c, threads) \<longrightarrow>
            (\<exists>k\<le>length (select_posts threads c (max_posts_per_run a)).
               delivered_ids w w' = map post_id (take k (select_posts threads c (max_posts_per_run a)))
               \<and> (k < length (select_posts threads c (max_posts_per_run a)) \<longrightarrow>
                     files w' = files w))"
    using poll_once_delivered [OF _ assms refl] by blast
  ultimately show ?thesis using fe by blast
qed

theorem failed_cycle_keeps_cursor_witness:
  "fst (poll_once args0 env_fail_second world0) = Inl (SlackWebhookFailed 500)
   \<and> delivered_ids world0 (snd (poll_once args0 env_fail_second world0)) = [6]
   \<and> files (snd (poll_once args0 env_fail_second world0)) = files world0
   \<and> persisted_id (files (snd (poll_once args0 env_fail_second world0))) (state_file args0) = Some 5
   \<and> delivered_ids (snd (poll_once args0 env_fail_second world0))
        (snd (poll_once args0 (env_fail_second\<lparr>slack_reply := (\<lambda>k. SlackResponse 200)\<rparr>)
               (snd (poll_once args0 env_fail_second world0)))) = [6, 7]
   \<and> fst (poll_once args0 env_replace_fails world0) = Inl OSError
   \<and> delivered_ids world0 (snd (poll_once args0 env_replace_fails world0)) = [6, 7]
   \<and> files (snd (poll_once args0 env_replace_fails world0)) (state_file args0)
       = files world0 (state_file args0)
   \<and> persisted_id (files (snd (poll_once args0 env_replace_fails world0))) ''s.tmp'' = Some 7
   \<and> fst (poll_once args0 env_dump_fails world_first_run) = Inl OSError
   \<and> files (snd (poll_once args0 env_dump_fails world_first_run)) (state_file args0)
       = files world_first_run (state_file args0)
   \<and> files (snd (poll_once args0 env_dump_fails world_first_run)) ''s.tmp'' = Contents None"
proof -
  let ?w' = "snd (poll_once args0 env_fail_second world0)"
  have run: "poll_once args0 env_fail_second world0 = (Inl (SlackWebhookFailed 500), ?w')"
    using fail_second_run by (simp add: prod_eq_iff)
  have sel: "select_posts [thread 6, thread 7] 5 (max_posts_per_run args0) = [thread 6, thread 7]"
    by (simp add: scenario_defs model_defs)
  note inst = failed_cycle_keeps_cursor [OF run]
  from inst fail_second_inputs obtain k where
    k: "delivered_ids world0 ?w'
          = map post_id (take k (select_posts [thread 6, thread 7] 5 (max_posts_per_run args0)))"
    and same: "k < length (select_posts [thread 6, thread 7] 5 (max_posts_per_run args0))
                 \<longrightarrow> files ?w' = files world0"
    by blast
  from k have "length (delivered_ids world0 ?w') = min k 2"
    by (simp only: sel length_map length_take) simp
  then have "k < 2" by (simp only: fail_second_delivered) simp
  with same have files: "files ?w' = files world0" by (simp only: sel) simp
  have "persisted_id (files world0) (state_file args0) = Some 5"
    by (simp add: persisted_id_def scenario_defs)
  with files have cur: "persisted_id (files ?w') (state_file args0) = Some 5" by simp
  have run2: "poll_once args0 env_replace_fails world0
                = (Inl OSError, snd (poll_once args0 env_replace_fails world0))"
    using replace_fails_run(1) by (simp add: prod_eq_iff)
  from failed_cycle_keeps_cursor [OF run2]
  have keep2: "files (snd (poll_once args0 env_replace_fails world0)) (state_file args0)
                 = files world0 (state_file args0)" by blast
  have run3: "poll_once args0 env_dump_fails world_first_run
                = (Inl OSError, snd (poll_once args0 env_dump_fails world_first_run))"
    using dump_fails_first_run(1) by (simp add: prod_eq_iff)
  from failed_cycle_keeps_cursor [OF run3]
  have keep3: "files (snd (poll_once args0 env_dump_fails world_first_run)) (state_file args0)
                 = files world_first_run (state_file args0)" by blast
  from fail_second_run fail_second_delivered files cur fail_second_retry replace_fails_run
       keep2 dump_fails_first_run keep3
  show ?thesis by blast
qed

section \<open>Cap and cursor\<close>

lemma spec_scenario_inputs:
  "poll_inputs args0 env0 world0
     = Inr (Some ''u'', state_at 5, 5, [thread 3, thread 6, thread 8, thread 7])"
  by (simp add: scenario_defs model_defs)

lemma spec_scenario_run: "fst (poll_once args0 env0 world0) = Inr 2"
  by (simp add: scenario_defs model_defs)

lemma spec_scenario_sorted:
  "sort (map post_id (qualifying [thread 3, thread 6, thread 8, thread 7] 5)) = [6, 7, 8]"
  by (simp add: qualifying_def has_int_id_def post_id_def dict_get_def thread_def)

text \<open>
  Claim C2, as amended. For every fetched set, cursor and cap, a cycle that completes
  delivers a prefix of the qualifying ids sorted in ascending order, and outside dry-run mode
  the persisted cursor is the greatest delivered id. When the cap is not negative, the prefix
  consists of the first \<open>max_posts_per_run\<close> of them (the smallest qualifying ids), so of at
  most \<open>max_posts_per_run\<close> items. In the scenario of the specification (cursor 5, fetched
  3, 6, 8, 7, cap 2) the ids 6 and 7 are delivered in that order and the cursor becomes 7.
\<close>

theorem capped_prefix_and_cursor:
  assumes inp: "poll_inputs a e w = Inr (url, state, c, threads)"
      and run: "poll_once a e w = (Inr n, w')"
  shows "(\<exists>k. delivered_ids w w' = take k (sort (map post_id (qualifying threads c))))
       \<and> (0 \<le> max_posts_per_run a \<longrightarrow>
            delivered_ids w w'
              = take (nat (max_posts_per_run a)) (sort (map post_id (qualifying threads c)))
            \<and> int n \<le> max_posts_per_run a)
       \<and> n = length (delivered_ids w w')
       \<and> (\<not> dry_run a \<and> delivered_ids w w' \<noteq> [] \<longrightarrow>
            persisted_id (files w') (state_file a) = Some (Max (set (delivered_ids w w'))))"
proof -
  let ?new = "select_posts threads c (max_posts_per_run a)"
  let ?S = "sort (map post_id (qualifying threads c))"
  from poll_once_delivered [OF inp run refl]
  have ids: "delivered_ids w w' = map post_id ?new" and n: "n = length ?new" by auto
  have len: "n = length (delivered_ids w w')" using ids n by simp
  have nonneg: "delivered_ids w w' = take (nat (max_posts_per_run a)) ?S
                \<and> int n \<le> max_posts_per_run a"
    if cap: "0 \<le> max_posts_per_run a"
  proof -
    have eq: "delivered_ids w w' = take (nat (max_posts_per_run a)) ?S"
      using cap by (simp only: ids select_posts_ids if_True)
    then have "length (delivered_ids w w') \<le> nat (max_posts_per_run a)" by simp
    with len cap have "int n \<le> max_posts_per_run a" by linarith
    with eq show ?thesis by blast
  qed
  have pre: "\<exists>k. delivered_ids w w' = take k ?S"
    unfolding ids select_posts_ids by (cases "0 \<le> max_posts_per_run a") auto
  have cur: "persisted_id (files w') (state_file a) = Some (Max (set (delivered_ids w w')))"
    if nodry: "\<not> dry_run a" and ne: "delivered_ids w w' \<noteq> []"
  proof -
    from ne ids have ne': "?new \<noteq> []" by auto
    have "persisted_id (files w') (state_file a) = Some (fold max (map post_id ?new) c)"
      using poll_once_summary [OF inp run refl] nodry ne' by auto
    moreover have "fold max (map post_id ?new) c = Max (set (map post_id ?new))"
    proof (rule fold_max_Max)
      show "map post_id ?new \<noteq> []" using ne' by simp
      show "\<forall>x\<in>set (map post_id ?new). c < x" using set_select_posts by auto
    qed
    ultimately show ?thesis using ids by simp
  qed
  from pre nonneg len cur show ?thesis by blast
qed

theorem capped_prefix_and_cursor_witness:
  "0 \<le> max_posts_per_run args0 \<and> \<not> dry_run args0
   \<and> fst (poll_once args0 env0 world0) = Inr 2
   \<and> delivered_ids world0 (snd (poll_once args0 env0 world0)) = [6, 7]
   \<and> persisted_id (files (snd (poll_once args0 env0 world0))) (state_file args0) = Some 7
   \<and> (\<exists>k. delivered_ids world0 (snd (poll_once args0 env0 world0)) = take k [6, 7, 8])"
proof -
  let ?w' = "snd (poll_once args0 env0 world0)"
  have run: "poll_once args0 env0 world0 = (Inr 2, ?w')"
    using spec_scenario_run by (simp add: prod_eq_iff)
  have cap: "0 \<le> max_posts_per_run args0" and nodry: "\<not> dry_run args0"
    by (simp_all add: args0_def)
  have q: "take (nat (max_posts_per_run args0))
             (sort (map post_id (qualifying [thread 3, thread 6, thread 8, thread 7] 5))) = [6, 7]"
    by (simp only: spec_scenario_sorted) (simp add: args0_def)
  note inst = capped_prefix_and_cursor [OF spec_scenario_inputs run]
  from inst cap have "delivered_ids world0 ?w'
      = take (nat (max_posts_per_run args0))
          (sort (map post_id (qualifying [thread 3, thread 6, thread 8, thread 7] 5)))"
    by blast
  with q have ids: "delivered_ids world0 ?w' = [6, 7]" by (simp only:)
  have ne: "delivered_ids world0 ?w' \<noteq> []" by (simp only: ids) simp
  from inst nodry ne
  have "persisted_id (files ?w') (state_file args0)
          = Some (Max (set (delivered_ids world0 ?w')))" by blast
  then have "persisted_id (files ?w') (state_file args0) = Some (Max (set [6, 7]))"
    by (simp only: ids)
  then have cur: "persisted_id (files ?w') (state_file args0) = Some 7" by simp
  from inst have "\<exists>k. delivered_ids world0 ?w'
      = take k (sort (map post_id (qualifying [thread 3, thread 6, thread 8, thread 7] 5)))"
    by blast
  then have pre: "\<exists>k. delivered_ids world0 ?w' = take k [6, 7, 8]"
    by (simp only: spec_scenario_sorted)
  from cap nodry spec_scenario_run ids cur pre show ?thesis by blast
qed

text \<open>
  The claim as stated (at most \<open>max_posts_per_run\<close> items for every fetched set) fails for
  the cap \<open>- 2\<close>, which the command line accepts: with cursor 5 and fetched ids 3, 6, 8, 7
  the slice keeps the first of the three qualifying items, and one item is more than \<open>- 2\<close>.
\<close>

theorem negative_cap_still_delivers:
  "max_posts_per_run args_neg_cap = - 2
   \<and> fst (poll_once args_neg_cap env0 world0) = Inr 1
   \<and> delivered_ids world0 (snd (poll_once args_neg_cap env0 world0)) = [6]
   \<and> \<not> int (length (delivered_ids world0 (snd (poll_once args_neg_cap env0 world0))))
         \<le> max_posts_per_run args_neg_cap"
  by (simp add: args_neg_cap_def scenario_defs model_defs observe_defs)

section \<open>Monotonic cursor\<close>

lemma spec_scenario_changes_file:
  "files (snd (poll_once args0 env0 world0)) (state_file args0) \<noteq> files world0 (state_file args0)"
  by (simp add: scenario_defs model_defs)

lemma replace_fails_changes_tmp:
  "files (snd (poll_once args0 env_replace_fails world0)) ''s.tmp'' \<noteq> files world0 ''s.tmp''"
  by (simp add: env_replace_fails_def scenario_defs model_defs)

text \<open>
  Claim C3. A cycle that changes the state file leaves in it a \<^verbatim>\<open>last_seen_id\<close> that is at
  least the cursor it loaded; any \<^verbatim>\<open>last_seen_id\<close> that a cycle leaves in a file it changed
  (the temporary file of a failed \<^verbatim>\<open>save_state\<close> included) is at least the cursor it loaded;
  and over any number of iterations of the continuous loop the cursor that \<^verbatim>\<open>load_state\<close>
  and line 175 read from the state file never decreases.
\<close>

theorem cursor_never_decreases:
  "(poll_once a e w = (r, w') \<and> files w' (state_file a) \<noteq> files w (state_file a) \<longrightarrow>
      (\<exists>c m. loaded_cursor (int_of_text e) (files w) (state_file a) = Inr c
           \<and> persisted_id (files w') (state_file a) = Some m \<and> c \<le> m))
   \<and> (poll_once a e w = (r, w') \<and> files w' p \<noteq> files w p
        \<and> persisted_id (files w') p = Some m' \<longrightarrow>
      (\<exists>c. loaded_cursor (int_of_text e) (files w) (state_file a) = Inr c \<and> c \<le> m'))
   \<and> ((\<forall>x\<in>set es. int_of_text x = parse)
        \<and> loaded_cursor parse (files w0) (state_file a) = Inr c0 \<longrightarrow>
      (\<exists>c1. loaded_cursor parse (files (main_loop a es w0)) (state_file a) = Inr c1
           \<and> c0 \<le> c1))"
proof (intro conjI impI)
  assume h: "poll_once a e w = (r, w') \<and> files w' (state_file a) \<noteq> files w (state_file a)"
  then have run: "poll_once a e w = (r, w')"
    and ch: "files w' (state_file a) \<noteq> files w (state_file a)" by simp_all
  show "\<exists>c m. loaded_cursor (int_of_text e) (files w) (state_file a) = Inr c
           \<and> persisted_id (files w') (state_file a) = Some m \<and> c \<le> m"
  proof (cases "poll_inputs a e w")
    case (Inl err)
    with run have "w' = w" by (simp add: poll_once_def)
    with ch show ?thesis by simp
  next
    case (Inr t)
    obtain url state c threads where "t = (url, state, c, threads)" by (cases t)
    with Inr have inp: "poll_inputs a e w = Inr (url, state, c, threads)" by simp
    from poll_once_files(1) [OF inp run refl] ch
    have "persisted_id (files w') (state_file a)
            = Some (fold max (map post_id (select_posts threads c (max_posts_per_run a))) c)"
      by blast
    with poll_inputs_loaded_cursor [OF inp] fold_max_ge show ?thesis by blast
  qed
next
  assume h: "poll_once a e w = (r, w') \<and> files w' p \<noteq> files w p
        \<and> persisted_id (files w') p = Some m'"
  then have run: "poll_once a e w = (r, w')" and ch: "files w' p \<noteq> files w p"
    and pm: "persisted_id (files w') p = Some m'" by simp_all
  show "\<exists>c. loaded_cursor (int_of_text e) (files w) (state_file a) = Inr c \<and> c \<le> m'"
  proof (cases "poll_inputs a e w")
    case (Inl err)
    with run have "w' = w" by (simp add: poll_once_def)
    with ch show ?thesis by simp
  next
    case (Inr t)
    obtain url state c threads where "t = (url, state, c, threads)" by (cases t)
    with Inr have inp: "poll_inputs a e w = Inr (url, state, c, threads)" by simp
    from poll_once_files(2) [OF inp run refl ch pm]
    have "m' = fold max (map post_id (select_posts threads c (max_posts_per_run a))) c" .
    with poll_inputs_loaded_cursor [OF inp] fold_max_ge show ?thesis by blast
  qed
next
  assume "(\<forall>x\<in>set es. int_of_text x = parse)
        \<and> loaded_cursor parse (files w0) (state_file a) = Inr c0"
  then show "\<exists>c1. loaded_cursor parse (files (main_loop a es w0)) (state_file a) = Inr c1
           \<and> c0 \<le> c1"
    using main_loop_cursor by blast
qed

theorem cursor_never_decreases_witness:
  "files (snd (poll_once args0 env0 world0)) (state_file args0) \<noteq> files world0 (state_file args0)
   \<and> (\<exists>c m. loaded_cursor (int_of_text env0) (files world0) (state_file args0) = Inr c
          \<and> persisted_id (files (snd (poll_once args0 env0 world0))) (state_file args0) = Some m
          \<and> c \<le> m)
   \<and> files (snd (poll_once args0 env_replace_fails world0)) ''s.tmp'' \<noteq> files world0 ''s.tmp''
   \<and> persisted_id (files (snd (poll_once args0 env_replace_fails world0))) ''s.tmp'' = Some 7
   \<and> (\<exists>c. loaded_cursor (int_of_text env_replace_fails) (files world0) (state_file args0) = Inr c
          \<and> c \<le> 7)
   \<and> loaded_cursor (int_of_text env0) (files world0) (state_file args0) = Inr 5
   \<and> (\<exists>c1. loaded_cursor (int_of_text env0) (files (main_loop args0 [env0, env0] world0))
                 (state_file args0) = Inr c1 \<and> 5 \<le> c1)"
proof -
  have run: "poll_once args0 env0 world0 = (fst (poll_once args0 env0 world0), snd (poll_once args0 env0 world0))"
    by simp
  have run2: "poll_once args0 env_replace_fails world0
     = (fst (poll_once args0 env_replace_fails world0), snd (poll_once args0 env_replace_fails world0))"
    by simp
  have same: "\<forall>x\<in>set [env0, env0]. int_of_text x = int_of_text env0" by simp
  have lc: "loaded_cursor (int_of_text env0) (files world0) (state_file args0) = Inr 5"
    by (simp add: loaded_cursor_def scenario_defs model_defs)
  note inst = cursor_never_decreases [of args0 env0 world0 "fst (poll_once args0 env0 world0)"
      "snd (poll_once args0 env0 world0)" "''s.tmp''" 7 "[env0, env0]" "int_of_text env0" world0 5]
  note inst2 = cursor_never_decreases [of args0 env_replace_fails world0
      "fst (poll_once args0 env_replace_fails world0)"
      "snd (poll_once args0 env_replace_fails world0)" "''s.tmp''" 7 "[]" "int_of_text env0" world0 5]
  from inst run spec_scenario_changes_file
  have a: "\<exists>c m. loaded_cursor (int_of_text env0) (files world0) (state_file args0) = Inr c
          \<and> persisted_id (files (snd (poll_once args0 env0 world0))) (state_file args0) = Some m
          \<and> c \<le> m"
    by blast
  from inst2 run2 replace_fails_changes_tmp replace_fails_run(3)
  have b: "\<exists>c. loaded_cursor (int_of_text env_replace_fails) (files world0) (state_file args0) = Inr c
          \<and> c \<le> 7"
    by blast
  from inst same lc
  have c: "\<exists>c1. loaded_cursor (int_of_text env0) (files (main_loop args0 [env0, env0] world0))
                 (state_file args0) = Inr c1 \<and> 5 \<le> c1"
    by blast
  from a b c spec_scenario_changes_file replace_fails_changes_tmp replace_fails_run(3) lc
  show ?thesis by blast
qed

section \<open>Strict filter\<close>

lemma boundary_inputs:
  "poll_inputs args0 env_boundary world0
     = Inr (Some ''u'', state_at 5, 5, [thread 5, thread 6, thread 4])"
  by (simp add: env_boundary_def scenario_defs model_defs)

lemma boundary_delivered:
  "delivered_ids world0 (snd (poll_once args0 env_boundary world0)) = [6]"
  by (simp add: env_boundary_def scenario_defs model_defs observe_defs)

text \<open>
  Claim C4. Every delivered id is strictly greater than the loaded cursor, so an item whose id
  equals the cursor is never delivered; and with a cap that truncates nothing the selection
  consists of exactly the fetched items with an integer id above the cursor.
\<close>

theorem strict_cursor_filter:
  assumes inp: "poll_inputs a e w = Inr (url, state, c, threads)"
      and run: "poll_once a e w = (r, w')"
  shows "(\<forall>i\<in>set (delivered_ids w w'). c < i) \<and> c \<notin> set (delivered_ids w w')
       \<and> (\<forall>cap\<ge>int (length threads).
             set (select_posts threads c cap) = {d \<in> set threads. has_int_id d \<and> c < post_id d})"
proof -
  from poll_once_delivered [OF inp run refl] obtain k where
    ids: "delivered_ids w w' = map post_id (take k (select_posts threads c (max_posts_per_run a)))"
    by blast
  have above: "\<forall>i\<in>set (delivered_ids w w'). c < i"
  proof
    fix i assume "i \<in> set (delivered_ids w w')"
    then obtain d where d: "d \<in> set (take k (select_posts threads c (max_posts_per_run a)))"
      and i: "i = post_id d" using ids by auto
    from d have "d \<in> set (select_posts threads c (max_posts_per_run a))" by (rule in_set_takeD)
    with i show "c < i" using set_select_posts by blast
  qed
  then have notin: "c \<notin> set (delivered_ids w w')" by auto
  have exact: "\<forall>cap\<ge>int (length threads).
             set (select_posts threads c cap) = {d \<in> set threads. has_int_id d \<and> c < post_id d}"
  proof (intro allI impI)
    fix cap :: int assume big: "int (length threads) \<le> cap"
    then have "0 \<le> cap" by linarith
    then have sel: "select_posts threads c cap = take (nat cap) (sort_key post_id (qualifying threads c))"
      by (rule select_posts_nonneg)
    have "length (qualifying threads c) \<le> length threads" by (simp add: qualifying_def)
    with big have "length (sort_key post_id (qualifying threads c)) \<le> nat cap" by simp
    then have "select_posts threads c cap = sort_key post_id (qualifying threads c)"
      using sel by simp
    then show "set (select_posts threads c cap) = {d \<in> set threads. has_int_id d \<and> c < post_id d}"
      by (simp add: qualifying_def)
  qed
  from above notin exact show ?thesis by blast
qed

theorem strict_cursor_filter_witness:
  "delivered_ids world0 (snd (poll_once args0 env_boundary world0)) = [6]
   \<and> list_all (\<lambda>i. 5 < i) (delivered_ids world0 (snd (poll_once args0 env_boundary world0)))
   \<and> 5 \<notin> set (delivered_ids world0 (snd (poll_once args0 env_boundary world0)))
   \<and> int (length [thread 5, thread 6, thread 4]) \<le> 3
   \<and> set (select_posts [thread 5, thread 6, thread 4] 5 3)
       = {d \<in> set [thread 5, thread 6, thread 4]. has_int_id d \<and> 5 < post_id d}"
proof -
  have run: "poll_once args0 env_boundary world0
     = (fst (poll_once args0 env_boundary world0), snd (poll_once args0 env_boundary world0))"
    by simp
  have len: "int (length [thread 5, thread 6, thread 4]) \<le> 3" by simp
  note inst = strict_cursor_filter [OF boundary_inputs run]
  from inst len have "set (select_posts [thread 5, thread 6, thread 4] 5 3)
       = {d \<in> set [thread 5, thread 6, thread 4]. has_int_id d \<and> 5 < post_id d}"
    by blast
  moreover from inst
  have "list_all (\<lambda>i. 5 < i) (delivered_ids world0 (snd (poll_once args0 env_boundary world0)))"
    unfolding list_all_iff by blast
  ultimately show ?thesis using inst len boundary_delivered by blast
qed

section \<open>Delivery order\<close>

text \<open>
  Claim C5, as amended. The ids are delivered in ascending order, and in strictly ascending
  order whenever the qualifying items have pairwise distinct ids. Nothing in the cycle removes
  duplicates: two fetched items with the same id are both delivered, one after the other.
\<close>

theorem delivery_order_ascending:
  assumes inp: "poll_inputs a e w = Inr (url, state, c, threads)"
      and run: "poll_once a e w = (r, w')"
  shows "sorted (delivered_ids w w')
       \<and> (distinct (map post_id (qualifying threads c)) \<longrightarrow> sorted_wrt (<) (delivered_ids w w'))"
proof -
  let ?new = "select_posts threads c (max_posts_per_run a)"
  from poll_once_delivered [OF inp run refl] obtain k where
    ids: "delivered_ids w w' = map post_id (take k ?new)" by blast
  have ids': "delivered_ids w w' = take k (map post_id ?new)" by (simp only: ids take_map)
  have asc: "sorted (delivered_ids w w')"
    unfolding ids' using sorted_select_posts by (rule sorted_wrt_take)
  have strict: "sorted_wrt (<) (delivered_ids w w')"
    if d: "distinct (map post_id (qualifying threads c))"
  proof -
    obtain n where n: "?new = take n (sort_key post_id (qualifying threads c))"
      using select_posts_take by blast
    have "map post_id ?new = take n (sort (map post_id (qualifying threads c)))"
      by (simp only: n take_map [symmetric] map_sort_key)
    moreover have "distinct (sort (map post_id (qualifying threads c)))" using d by simp
    ultimately have "distinct (map post_id ?new)" by (simp only: distinct_take)
    then have "distinct (delivered_ids w w')" unfolding ids' by (rule distinct_take)
    with asc show ?thesis by (simp only: strict_sorted_iff)
  qed
  from asc strict show ?thesis by blast
qed

theorem delivery_order_ascending_witness:
  "distinct (map post_id (qualifying [thread 3, thread 6, thread 8, thread 7] 5))
   \<and> delivered_ids world0 (snd (poll_once args0 env0 world0)) = [6, 7]
   \<and> sorted (delivered_ids world0 (snd (poll_once args0 env0 world0)))
   \<and> sorted_wrt (<) (delivered_ids world0 (snd (poll_once args0 env0 world0)))"
proof -
  have run: "poll_once args0 env0 world0
     = (fst (poll_once args0 env0 world0), snd (poll_once args0 env0 world0))" by simp
  have d: "distinct (map post_id (qualifying [thread 3, thread 6, thread 8, thread 7] 5))"
    by (simp add: qualifying_def has_int_id_def post_id_def dict_get_def thread_def)
  have ids: "delivered_ids world0 (snd (poll_once args0 env0 world0)) = [6, 7]"
    by (simp add: scenario_defs model_defs observe_defs)
  note inst = delivery_order_ascending [OF spec_scenario_inputs run]
  from inst d have "sorted (delivered_ids world0 (snd (poll_once args0 env0 world0)))"
    and "sorted_wrt (<) (delivered_ids world0 (snd (poll_once args0 env0 world0)))"
    by blast+
  with d ids show ?thesis by blast
qed

text \<open>
  The claim as stated (strictly ascending for any fetched set) fails for two fetched items
  with the id 6 and different titles, cursor 5: both are delivered.
\<close>

theorem same_id_delivered_twice:
  "delivered_ids world0 (snd (poll_once args0 env_same_id world0)) = [6, 6]
   \<and> \<not> sorted_wrt (<) (delivered_ids world0 (snd (poll_once args0 env_same_id world0)))"
  by (simp add: env_same_id_def scenario_defs model_defs observe_defs)

section \<open>Empty delivery set\<close>





section \<open>Loading the state\<close>

lemma dict_set_absent: "k \<notin> fst ` set d \<Longrightarrow> dict_set d k v = d @ [(k, v)]"
  by (induction d k v rule: dict_set.induct) auto

text \<open>
  Claim C7, as amended. \<^verbatim>\<open>load_state\<close> always returns a value. For a file that
  \<^verbatim>\<open>os.path.exists\<close> does not see (missing, or its \<^verbatim>\<open>stat\<close> denied) it is the zero state,
  without a warning. When \<^verbatim>\<open>open\<close> or \<^verbatim>\<open>json.load\<close> raises, or the parsed value is
  \<^verbatim>\<open>null\<close>, a boolean or a number, or a list or string that does not contain
  \<^verbatim>\<open>"last_seen_id"\<close>, it is the zero state with the \<^verbatim>\<open>warning\<close> field. A JSON object
  without the key \<^verbatim>\<open>last_seen_id\<close> is returned with \<^verbatim>\<open>last_seen_id\<close> 0 added, and one with
  an integer under that key is returned as it is, both without a warning.
\<close>

theorem load_state_never_raises:
  "(\<exists>s. load_state fs path = Inr s)
   \<and> (fs path = Missing \<or> fs path = Hidden \<longrightarrow>
        load_state fs path = Inr (JDict [(''last_seen_id'', JInt 0), (''last_run_utc'', JNull)]))
   \<and> (fs path = Unreadable \<or> fs path = Contents None
        \<or> fs path = Contents (Some JNull) \<or> fs path = Contents (Some (JBool b))
        \<or> fs path = Contents (Some (JInt n)) \<or> fs path = Contents (Some (JFloat f))
        \<or> (fs path = Contents (Some (JList xs)) \<and> JStr ''last_seen_id'' \<notin> set xs)
        \<or> (fs path = Contents (Some (JStr t)) \<and> \<not> has_substring ''last_seen_id'' t) \<longrightarrow>
        load_state fs path = Inr (JDict [(''last_seen_id'', JInt 0), (''last_run_utc'', JNull),
                                         (''warning'', JStr ''state file unreadable; reset state'')]))
   \<and> (fs path = Contents (Some (JDict d)) \<and> ''last_seen_id'' \<notin> fst ` set d \<longrightarrow>
        load_state fs path = Inr (JDict (d @ [(''last_seen_id'', JInt 0)])))
   \<and> (fs path = Contents (Some (JDict d)) \<and> map_of d ''last_seen_id'' = Some (JInt k) \<longrightarrow>
        load_state fs path = Inr (JDict d))"
proof -
  have total: "\<exists>s. load_state fs path = Inr s"
    by (simp add: load_state_def split: sum.splits)
  have unseen: "fs path = Missing \<or> fs path = Hidden \<longrightarrow>
        load_state fs path = Inr (JDict [(''last_seen_id'', JInt 0), (''last_run_utc'', JNull)])"
    by (auto simp: load_state_def path_exists_def zero_state_def)
  have warn: "fs path = Unreadable \<or> fs path = Contents None
        \<or> fs path = Contents (Some JNull) \<or> fs path = Contents (Some (JBool b))
        \<or> fs path = Contents (Some (JInt n)) \<or> fs path = Contents (Some (JFloat f))
        \<or> (fs path = Contents (Some (JList xs)) \<and> JStr ''last_seen_id'' \<notin> set xs)
        \<or> (fs path = Contents (Some (JStr t)) \<and> \<not> has_substring ''last_seen_id'' t) \<longrightarrow>
        load_state fs path = Inr (JDict [(''last_seen_id'', JInt 0), (''last_run_utc'', JNull),
                                         (''warning'', JStr ''state file unreadable; reset state'')])"
    by (auto simp: load_state_def load_state_try_def path_exists_def warning_state_def
          bind_err_def)
  have absent: "fs path = Contents (Some (JDict d)) \<and> ''last_seen_id'' \<notin> fst ` set d \<longrightarrow>
        load_state fs path = Inr (JDict (d @ [(''last_seen_id'', JInt 0)]))"
    by (auto simp: load_state_def load_state_try_def path_exists_def bind_err_def
          dict_set_absent)
  have present: "fs path = Contents (Some (JDict d)) \<and> map_of d ''last_seen_id'' = Some (JInt k) \<longrightarrow>
        load_state fs path = Inr (JDict d)"
  proof
    assume h: "fs path = Contents (Some (JDict d)) \<and> map_of d ''last_seen_id'' = Some (JInt k)"
    then have "''last_seen_id'' \<in> fst ` set d"
      by (metis map_of_eq_None_iff option.distinct(1))
    with h show "load_state fs path = Inr (JDict d)"
      by (simp add: load_state_def load_state_try_def path_exists_def bind_err_def)
  qed
  from total unseen warn absent present show ?thesis by blast
qed

theorem load_state_never_raises_witness:
  "files_example ''absent'' = Missing
   \<and> load_state files_example ''absent''
       = Inr (JDict [(''last_seen_id'', JInt 0), (''last_run_utc'', JNull)])
   \<and> files_example ''hidden'' = Hidden
   \<and> load_state files_example ''hidden''
       = Inr (JDict [(''last_seen_id'', JInt 0), (''last_run_utc'', JNull)])
   \<and> files_example ''locked'' = Unreadable
   \<and> load_state files_example ''locked''
       = Inr (JDict [(''last_seen_id'', JInt 0), (''last_run_utc'', JNull),
                     (''warning'', JStr ''state file unreadable; reset state'')])
   \<and> files_example ''garbled'' = Contents None
   \<and> load_state files_example ''garbled''
       = Inr (JDict [(''last_seen_id'', JInt 0), (''last_run_utc'', JNull),
                     (''warning'', JStr ''state file unreadable; reset state'')])
   \<and> files_example ''number'' = Contents (Some (JInt 7))
   \<and> load_state files_example ''number''
       = Inr (JDict [(''last_seen_id'', JInt 0), (''last_run_utc'', JNull),
                     (''warning'', JStr ''state file unreadable; reset state'')])
   \<and> files_example ''bare'' = Contents (Some (JDict [(''note'', JNull)]))
   \<and> load_state files_example ''bare''
       = Inr (JDict [(''note'', JNull), (''last_seen_id'', JInt 0)])
   \<and> files world0 ''s'' = Contents (Some (JDict [(''last_seen_id'', JInt 5), (''last_run_utc'', JNull)]))
   \<and> load_state (files world0) ''s''
       = Inr (JDict [(''last_seen_id'', JInt 5), (''last_run_utc'', JNull)])"
proof -
  have a: "files_example ''absent'' = Missing" and h: "files_example ''hidden'' = Hidden"
    and l: "files_example ''locked'' = Unreadable"
    and g: "files_example ''garbled'' = Contents None"
    and n: "files_example ''number'' = Contents (Some (JInt 7))"
    and b: "files_example ''bare'' = Contents (Some (JDict [(''note'', JNull)]))"
    by (simp_all add: files_example_def)
  have i: "files world0 ''s''
             = Contents (Some (JDict [(''last_seen_id'', JInt 5), (''last_run_utc'', JNull)]))"
    by (simp add: world0_def state_at_def)
  have m: "map_of [(''last_seen_id'', JInt 5), (''last_run_utc'', JNull)] ''last_seen_id''
             = Some (JInt 5)" by simp
  have ra: "load_state files_example ''absent''
       = Inr (JDict [(''last_seen_id'', JInt 0), (''last_run_utc'', JNull)])"
    using load_state_never_raises [of files_example "''absent''"] a by blast
  have rh: "load_state files_example ''hidden''
       = Inr (JDict [(''last_seen_id'', JInt 0), (''last_run_utc'', JNull)])"
    using load_state_never_raises [of files_example "''hidden''"] h by blast
  have rl: "load_state files_example ''locked''
       = Inr (JDict [(''last_seen_id'', JInt 0), (''last_run_utc'', JNull),
                     (''warning'', JStr ''state file unreadable; reset state'')])"
    using load_state_never_raises [of files_example "''locked''"] l by blast
  have rg: "load_state files_example ''garbled''
       = Inr (JDict [(''last_seen_id'', JInt 0), (''last_run_utc'', JNull),
                     (''warning'', JStr ''state file unreadable; reset state'')])"
    using load_state_never_raises [of files_example "''garbled''"] g by blast
  have rn: "load_state files_example ''number''
       = Inr (JDict [(''last_seen_id'', JInt 0), (''last_run_utc'', JNull),
                     (''warning'', JStr ''state file unreadable; reset state'')])"
    using load_state_never_raises [of files_example "''number''" _ 7] n by blast
  have nk: "''last_seen_id'' \<notin> fst ` set [(''note'', JNull)]" by simp
  have "load_state files_example ''bare''
       = Inr (JDict ([(''note'', JNull)] @ [(''last_seen_id'', JInt 0)]))"
    using load_state_never_raises [of files_example "''bare''" _ _ _ _ _ "[(''note'', JNull)]"] b nk
    by blast
  then have rb: "load_state files_example ''bare''
       = Inr (JDict [(''note'', JNull), (''last_seen_id'', JInt 0)])" by simp
  have ri: "load_state (files world0) ''s''
       = Inr (JDict [(''last_seen_id'', JInt 5), (''last_run_utc'', JNull)])"
    using load_state_never_raises [of "files world0" "''s''" _ _ _ _ _
            "[(''last_seen_id'', JInt 5), (''last_run_utc'', JNull)]" 5] i m
    by blast
  from a h l g n b i ra rh rl rg rn rb ri show ?thesis by blast
qed

text \<open>
  The claim as stated (the zero state with the warning for every unreadable or corrupt file)
  fails twice. A state file that parses but holds text under \<^verbatim>\<open>last_seen_id\<close> is returned as
  it is, with no warning, and the cycle then raises at line 175; and a file whose \<^verbatim>\<open>stat\<close> is
  denied gets the zero state without the warning.
\<close>

theorem wrong_shape_state_returned:
  "files world_wrong_shape ''s'' = Contents (Some (JDict [(''last_seen_id'', JStr ''abc'')]))
   \<and> load_state (files world_wrong_shape) ''s'' = Inr (JDict [(''last_seen_id'', JStr ''abc'')])
   \<and> load_state (files world_wrong_shape) ''s'' \<noteq> Inr warning_state
   \<and> fst (poll_once args0 env0 world_wrong_shape) = Inl ValueError
   \<and> files_example ''hidden'' = Hidden
   \<and> load_state files_example ''hidden'' = Inr zero_state
   \<and> load_state files_example ''hidden'' \<noteq> Inr warning_state"
  by (simp add: world_wrong_shape_def files_example_def zero_state_def warning_state_def
        scenario_defs model_defs)

section \<open>Preview isolation\<close>

text \<open>
  Claim C8. In dry-run mode the files and the Slack channel are the same after any number of
  iterations of the loop and after a single cycle, whatever the cycle fetches and whether it
  completes or raises; and the outcome of a cycle does not depend on whether the state file
  could be written, as \<^verbatim>\<open>save_state\<close> is not reached.
\<close>

theorem dry_run_never_persists:
  assumes "dry_run a"
  shows "files (main_loop a es w) = files w
       \<and> slack_channel (main_loop a es w) = slack_channel w
       \<and> files (snd (poll_once a e w)) = files w
       \<and> poll_once a (e\<lparr>write_ok := b\<rparr>) w = poll_once a e w"
proof -
  have "files (snd (poll_once a e w)) = files w"
    using poll_once_dry_files [OF assms, of e w "fst (poll_once a e w)" "snd (poll_once a e w)"]
    by simp
  with main_loop_dry_files [OF assms] poll_once_dry_write_ok [OF assms] show ?thesis by blast
qed

theorem dry_run_never_persists_witness:
  "dry_run args_dry
   \<and> fst (poll_once args_dry env0 world0) = Inr 2
   \<and> delivered_ids world0 (snd (poll_once args_dry env0 world0)) = [6, 7]
   \<and> files (snd (poll_once args_dry env0 world0)) = files world0
   \<and> files (main_loop args_dry [env0, env0, env0] world0) = files world0
   \<and> slack_channel (main_loop args_dry [env0, env0, env0] world0) = slack_channel world0
   \<and> poll_once args_dry (env0\<lparr>write_ok := False\<rparr>) world0 = poll_once args_dry env0 world0
   \<and> fst (poll_once args_dry env_print_fails world0) = Inl OSError
   \<and> files (snd (poll_once args_dry env_print_fails world0)) = files world0"
proof -
  have dry: "dry_run args_dry" by (simp add: args_dry_def args0_def)
  have pf: "fst (poll_once args_dry env_print_fails world0) = Inl OSError"
    by (simp add: args_dry_def env_print_fails_def scenario_defs model_defs)
  have r: "fst (poll_once args_dry env0 world0) = Inr 2"
    by (simp add: args_dry_def scenario_defs model_defs)
  have ids: "delivered_ids world0 (snd (poll_once args_dry env0 world0)) = [6, 7]"
    by (simp add: args_dry_def scenario_defs model_defs observe_defs)
  from dry_run_never_persists [OF dry, of "[env0, env0, env0]" world0 env0 False]
       dry_run_never_persists [OF dry, of "[]" world0 env_print_fails False] dry r ids pf
  show ?thesis by blast
qed

section \<open>Response shapes\<close>

text \<open>
  Claim C9. A reply with status 200 and a JSON object as body can still make
  \<^verbatim>\<open>fetch_latest_threads\<close> raise: with a list under \<^verbatim>\<open>data\<close> the call of \<^verbatim>\<open>.get\<close>
  on it raises \<^verbatim>\<open>AttributeError\<close>, and with a number under \<^verbatim>\<open>data.threads\<close> the
  iteration over it raises \<^verbatim>\<open>TypeError\<close>.
\<close>

theorem fetch_unrecognized_shape_raises:
  "request_json (ed_reply env_data_list) = Inr (JDict [(''data'', JList [JDict (thread 1)])])
   \<and> fetch_latest_threads env_data_list = Inl AttributeError
   \<and> request_json (ed_reply env_bad_shape)
       = Inr (JDict [(''data'', JDict [(''threads'', JInt 1)])])
   \<and> fetch_latest_threads env_bad_shape = Inl TypeError"
  by (simp add: env_data_list_def env_bad_shape_def scenario_defs model_defs)

section \<open>Missing webhook URL\<close>

lemma no_webhook_inputs:
  "poll_inputs args0 env0 world_no_webhook
     = Inr (None, state_at 5, 5, [thread 3, thread 6, thread 8, thread 7])"
  by (simp add: world_no_webhook_def scenario_defs model_defs)

lemma no_webhook_run: "fst (poll_once args0 env0 world_no_webhook) = Inr 2"
  by (simp add: world_no_webhook_def scenario_defs model_defs)

lemma no_webhook_selected:
  "select_posts [thread 3, thread 6, thread 8, thread 7] 5 (max_posts_per_run args0)
     = [thread 6, thread 7]"
  by (simp add: scenario_defs model_defs)

text \<open>
  Claim C10. Without a webhook URL and outside dry-run mode, a completed cycle with a
  selection posts nothing to Slack, prints the selected items, and persists the greatest of
  their ids as the cursor, which the next cycle loads; the same cycle in dry-run mode leaves
  the files alone.
\<close>

theorem missing_webhook_prints_and_persists:
  assumes nodry: "\<not> dry_run a"
      and nohook: "not_set (environ w ''SLACK_WEBHOOK_URL'')"
      and inp: "poll_inputs a e w = Inr (url, state, c, threads)"
      and run: "poll_once a e w = (Inr n, w')"
      and ne: "select_posts threads c (max_posts_per_run a) \<noteq> []"
  shows "slack_channel w' = slack_channel w
       \<and> delivered_ids w w' = map post_id (select_posts threads c (max_posts_per_run a))
       \<and> List.map_filter discussion_of (printed_since w w') = delivered_ids w w'
       \<and> persisted_id (files w') (state_file a) = Some (Max (set (delivered_ids w w')))
       \<and> loaded_cursor parse (files w') (state_file a) = Inr (Max (set (delivered_ids w w')))
       \<and> files (snd (poll_once (a\<lparr>dry_run := True\<rparr>) e w)) = files w"
proof -
  let ?new = "select_posts threads c (max_posts_per_run a)"
  have url: "not_set url" using poll_inputs_Inr(2) [OF inp] nohook by simp
  from poll_once_summary [OF inp run refl] url nodry ne
  have slack: "slack_channel w' = slack_channel w"
    and pid: "persisted_id (files w') (state_file a) = Some (fold max (map post_id ?new) c)"
    by auto
  from poll_once_delivered [OF inp run refl]
  have ids: "delivered_ids w w' = map post_id ?new" by auto
  have printed: "List.map_filter discussion_of (printed_since w w') = delivered_ids w w'"
    using slack by (simp add: delivered_ids_def posted_since_def)
  have "fold max (map post_id ?new) c = Max (set (map post_id ?new))"
  proof (rule fold_max_Max)
    show "map post_id ?new \<noteq> []" using ne by simp
    show "\<forall>x\<in>set (map post_id ?new). c < x" using set_select_posts by auto
  qed
  with pid ids have cur: "persisted_id (files w') (state_file a) = Some (Max (set (delivered_ids w w')))"
    by simp
  then have lc: "loaded_cursor parse (files w') (state_file a) = Inr (Max (set (delivered_ids w w')))"
    by (rule loaded_cursor_persisted)
  have dry: "files (snd (poll_once (a\<lparr>dry_run := True\<rparr>) e w)) = files w"
    using poll_once_dry_files [of "a\<lparr>dry_run := True\<rparr>" e w
        "fst (poll_once (a\<lparr>dry_run := True\<rparr>) e w)" "snd (poll_once (a\<lparr>dry_run := True\<rparr>) e w)"]
    by simp
  from slack ids printed cur lc dry show ?thesis by blast
qed

theorem missing_webhook_prints_and_persists_witness:
  "\<not> dry_run args0 \<and> not_set (environ world_no_webhook ''SLACK_WEBHOOK_URL'')
   \<and> fst (poll_once args0 env0 world_no_webhook) = Inr 2
   \<and> slack_channel (snd (poll_once args0 env0 world_no_webhook)) = slack_channel world_no_webhook
   \<and> List.map_filter discussion_of
         (printed_since world_no_webhook (snd (poll_once args0 env0 world_no_webhook))) = [6, 7]
   \<and> persisted_id (files (snd (poll_once args0 env0 world_no_webhook))) (state_file args0) = Some 7
   \<and> files (snd (poll_once (args0\<lparr>dry_run := True\<rparr>) env0 world_no_webhook))
       = files world_no_webhook"
proof -
  let ?w' = "snd (poll_once args0 env0 world_no_webhook)"
  have nodry: "\<not> dry_run args0" by (simp add: args0_def)
  have nohook: "not_set (environ world_no_webhook ''SLACK_WEBHOOK_URL'')"
    by (simp add: world_no_webhook_def world0_def not_set_def)
  have run: "poll_once args0 env0 world_no_webhook = (Inr 2, ?w')"
    using no_webhook_run by (simp add: prod_eq_iff)
  have ne: "select_posts [thread 3, thread 6, thread 8, thread 7] 5 (max_posts_per_run args0) \<noteq> []"
    by (simp only: no_webhook_selected) simp
  note inst = missing_webhook_prints_and_persists [OF nodry nohook no_webhook_inputs run ne]
  from inst have ids: "delivered_ids world_no_webhook ?w' = map post_id [thread 6, thread 7]"
    by (simp only: no_webhook_selected)
  then have ids': "delivered_ids world_no_webhook ?w' = [6, 7]"
    by (simp add: post_id_def dict_get_def thread_def)
  from inst have "List.map_filter discussion_of (printed_since world_no_webhook ?w')
      = delivered_ids world_no_webhook ?w'" by blast
  then have printed: "List.map_filter discussion_of (printed_since world_no_webhook ?w') = [6, 7]"
    by (simp only: ids')
  from inst have "persisted_id (files ?w') (state_file args0)
      = Some (Max (set (delivered_ids world_no_webhook ?w')))" by blast
  then have cur: "persisted_id (files ?w') (state_file args0) = Some 7"
    by (simp only: ids') simp
  from inst nodry nohook no_webhook_run printed cur show ?thesis by blast
qed

end
